theory Spec2Isabelle
  imports Complex_Main
begin

section \<open>Cell values\<close>

text \<open>
  The two scripts of \<^verbatim>\<open>Nutrition_Data\<close> read a tab-separated export in chunks with
  pandas and append a cleaned extract to a CSV file.
  \<^item> \<^verbatim>\<open>prepare_foods_csv_chunks_limited.py\<close> is the strict variant (presence filter,
    de-duplication, completeness filter, \<^verbatim>\<open>clean_numeric\<close>, all-zero filter);
  \<^item> \<^verbatim>\<open>prepare_foods_csv_chunks.py\<close> is the simple variant (one DataFrame literal per
    chunk, no filter).

  A float64 is a rational, an infinity or NaN: the order, the equality with zero and
  NaN's behaviour in comparisons are modelled, binary rounding is not. A cell of a chunk
  is a string (object column) or a float (numeric column); a missing cell is the float NaN,
  as pandas stores it.
\<close>

datatype float64 = Val rat | PosInf | NegInf | NaN

datatype cell = Str string | Flt float64

datatype error = AttributeError | TypeError

text \<open>Python's comparisons of a float with a number: every comparison with NaN is false.\<close>

fun f_gt :: "float64 \<Rightarrow> rat \<Rightarrow> bool" where
  "f_gt (Val x) b = (x > b)"
| "f_gt PosInf b = True"
| "f_gt NegInf b = False"
| "f_gt NaN b = False"

fun f_lt :: "float64 \<Rightarrow> rat \<Rightarrow> bool" where
  "f_lt (Val x) b = (x < b)"
| "f_lt PosInf b = False"
| "f_lt NegInf b = True"
| "f_lt NaN b = False"

fun f_le :: "float64 \<Rightarrow> rat \<Rightarrow> bool" where
  "f_le (Val x) b = (x \<le> b)"
| "f_le PosInf b = False"
| "f_le NegInf b = True"
| "f_le NaN b = False"

fun f_ge :: "float64 \<Rightarrow> rat \<Rightarrow> bool" where
  "f_ge (Val x) b = (x \<ge> b)"
| "f_ge PosInf b = True"
| "f_ge NegInf b = False"
| "f_ge NaN b = False"

text \<open>\<^verbatim>\<open>pd.isna\<close> / \<^verbatim>\<open>notna\<close> on a cell, and \<^verbatim>\<open>fillna\<close>, \<^verbatim>\<open>clip\<close> on a float.\<close>

fun isna :: "cell \<Rightarrow> bool" where
  "isna (Flt NaN) = True"
| "isna c = False"

definition fillna :: "rat \<Rightarrow> float64 \<Rightarrow> float64" where
  "fillna d x = (if x = NaN then Val d else x)"

fun clip :: "rat \<Rightarrow> rat \<Rightarrow> float64 \<Rightarrow> float64" where
  "clip lo hi (Val x) = Val (if x < lo then lo else if x > hi then hi else x)"
| "clip lo hi PosInf = Val hi"
| "clip lo hi NegInf = Val lo"
| "clip lo hi NaN = NaN"

section \<open>Strings\<close>

text \<open>
  Strings are lists of 8-bit characters, read as the code points below 256.
  \<open>is_space\<close> is \<^verbatim>\<open>str.isspace\<close> (and the regex class \<^verbatim>\<open>\s\<close>) on these code points,
  \<open>lower\<close> is \<^verbatim>\<open>str.lower\<close>, \<open>strip\<close> is \<^verbatim>\<open>str.strip()\<close>.
\<close>

definition is_digit :: "char \<Rightarrow> bool" where
  "is_digit c = (c \<in> set ''0123456789'')"

definition is_space :: "char \<Rightarrow> bool" where
  "is_space c = (c \<in> set [CHR 0x09, CHR 0x0A, CHR 0x0B, CHR 0x0C, CHR 0x0D,
       CHR 0x1C, CHR 0x1D, CHR 0x1E, CHR 0x1F, CHR 0x20, CHR 0x85, CHR 0xA0])"

definition upper_chars :: "char list" where
  "upper_chars = ''ABCDEFGHIJKLMNOPQRSTUVWXYZ'' @
     [CHR 0xC0, CHR 0xC1, CHR 0xC2, CHR 0xC3, CHR 0xC4, CHR 0xC5, CHR 0xC6, CHR 0xC7,
      CHR 0xC8, CHR 0xC9, CHR 0xCA, CHR 0xCB, CHR 0xCC, CHR 0xCD, CHR 0xCE, CHR 0xCF,
      CHR 0xD0, CHR 0xD1, CHR 0xD2, CHR 0xD3, CHR 0xD4, CHR 0xD5, CHR 0xD6,
      CHR 0xD8, CHR 0xD9, CHR 0xDA, CHR 0xDB, CHR 0xDC, CHR 0xDD, CHR 0xDE]"

definition lower_chars :: "char list" where
  "lower_chars = ''abcdefghijklmnopqrstuvwxyz'' @
     [CHR 0xE0, CHR 0xE1, CHR 0xE2, CHR 0xE3, CHR 0xE4, CHR 0xE5, CHR 0xE6, CHR 0xE7,
      CHR 0xE8, CHR 0xE9, CHR 0xEA, CHR 0xEB, CHR 0xEC, CHR 0xED, CHR 0xEE, CHR 0xEF,
      CHR 0xF0, CHR 0xF1, CHR 0xF2, CHR 0xF3, CHR 0xF4, CHR 0xF5, CHR 0xF6,
      CHR 0xF8, CHR 0xF9, CHR 0xFA, CHR 0xFB, CHR 0xFC, CHR 0xFD, CHR 0xFE]"

definition lower_char :: "char \<Rightarrow> char" where
  "lower_char c = (case map_of (zip upper_chars lower_chars) c of Some d \<Rightarrow> d | None \<Rightarrow> c)"

definition lower :: "string \<Rightarrow> string" where
  "lower s = map lower_char s"

definition strip :: "string \<Rightarrow> string" where
  "strip s = rev (dropWhile is_space (rev (dropWhile is_space s)))"

text \<open>\<^verbatim>\<open>.str.replace(",", ".", regex=False)\<close> and the two quote removals of step 6.\<close>

definition comma_to_dot :: "string \<Rightarrow> string" where
  "comma_to_dot s = map (\<lambda>c. if c = CHR '','' then CHR ''.'' else c) s"

definition remove_quotes :: "string \<Rightarrow> string" where
  "remove_quotes s = filter (\<lambda>c. c \<noteq> CHR 0x27) (filter (\<lambda>c. c \<noteq> CHR 0x22) s)"

text \<open>
  \<open>float_repr\<close> stands for Python's \<^verbatim>\<open>str\<close> of a finite float (the shortest decimal that
  reads back, with its switch to exponent notation below \<open>0.0001\<close> and from \<open>1e16\<close>). It
  is a parameter of every function that converts a cell to text, so that what is proved
  holds whatever Python prints. \<open>py_str\<close> is \<^verbatim>\<open>str(x)\<close> / \<^verbatim>\<open>astype(str)\<close> on one cell.
\<close>

type_synonym float_repr = "rat \<Rightarrow> string"

fun py_str :: "float_repr \<Rightarrow> cell \<Rightarrow> string" where
  "py_str R (Str s) = s"
| "py_str R (Flt (Val x)) = R x"
| "py_str R (Flt PosInf) = ''inf''"
| "py_str R (Flt NegInf) = ''-inf''"
| "py_str R (Flt NaN) = ''nan''"

section \<open>Parsing numbers\<close>

text \<open>
  The pattern of \<^verbatim>\<open>clean_numeric\<close> is \<^verbatim>\<open>([-+]?\d*\.?\d+)\<close>. \<open>match_body\<close> matches
  \<^verbatim>\<open>\d*\.?\d+\<close> at the start of a string with the backtracking of the regex engine:
  all the digits, then a point followed by at least one digit; when no digit follows
  the point, the digits alone (the last of them is given back to \<^verbatim>\<open>\d+\<close>).
  \<open>match_here\<close> adds the optional sign, \<open>regex_search\<close> finds the leftmost match, as
  \<^verbatim>\<open>str.extract\<close> does; no match gives NaN there, \<open>None\<close> here.
\<close>

definition match_body :: "string \<Rightarrow> string option" where
  "match_body s =
     (let ds = takeWhile is_digit s; rest = dropWhile is_digit s in
      case rest of
        [] \<Rightarrow> (if ds \<noteq> [] then Some ds else None)
      | c # t \<Rightarrow>
          (let fs = takeWhile is_digit t in
           if c = CHR ''.'' \<and> fs \<noteq> [] then Some (ds @ [c] @ fs)
           else if ds \<noteq> [] then Some ds else None))"

definition match_here :: "string \<Rightarrow> string option" where
  "match_here s =
     (case s of
        [] \<Rightarrow> None
      | c # t \<Rightarrow>
          (if c = CHR ''-'' \<or> c = CHR ''+'' then
             (case match_body t of Some m \<Rightarrow> Some (c # m) | None \<Rightarrow> match_body s)
           else match_body s))"

fun regex_search :: "string \<Rightarrow> string option" where
  "regex_search [] = None"
| "regex_search (c # t) =
     (case match_here (c # t) of Some m \<Rightarrow> Some m | None \<Rightarrow> regex_search t)"

text \<open>
  \<open>to_double\<close> is the string-to-float conversion behind
  \<^verbatim>\<open>pd.to_numeric(..., errors="coerce")\<close>: the words \<^verbatim>\<open>inf\<close>, \<^verbatim>\<open>infinity\<close> and \<^verbatim>\<open>nan\<close>
  in any case, with an optional sign and nothing around them; otherwise a numeral, around
  which the white space of C's \<^verbatim>\<open>isspace\<close> is skipped: an optional sign, digits with an
  optional point, an optional exponent. Every other string is coerced to NaN. The value
  of a numeral is its exact rational: the rounding to the nearest double, the overflow
  to infinity and the underflow to zero of very long numerals are not modelled.
\<close>

definition is_c_space :: "char \<Rightarrow> bool" where
  "is_c_space c = (c \<in> set [CHR 0x09, CHR 0x0A, CHR 0x0B, CHR 0x0C, CHR 0x0D, CHR 0x20])"

definition strip_ascii :: "string \<Rightarrow> string" where
  "strip_ascii s = rev (dropWhile is_c_space (rev (dropWhile is_c_space s)))"

definition digit_val :: "char \<Rightarrow> nat" where
  "digit_val c = (case map_of (zip ''0123456789'' [0, 1, 2, 3, 4, 5, 6, 7, 8, 9]) c of
                    Some d \<Rightarrow> d | None \<Rightarrow> 0)"

definition digits_val :: "string \<Rightarrow> nat" where
  "digits_val ds = foldl (\<lambda>a c. 10 * a + digit_val c) 0 ds"

definition split_sign :: "string \<Rightarrow> bool \<times> string" where
  "split_sign s =
     (case s of
        [] \<Rightarrow> (False, [])
      | c # t \<Rightarrow> if c = CHR ''-'' then (True, t) else if c = CHR ''+'' then (False, t)
                 else (False, s))"

definition parse_exponent :: "string \<Rightarrow> int option" where
  "parse_exponent s =
     (case s of
        [] \<Rightarrow> Some 0
      | c # t \<Rightarrow>
          (if c = CHR ''e'' \<or> c = CHR ''E'' then
             (let (neg, ds) = split_sign t in
              if ds \<noteq> [] \<and> list_all is_digit ds
              then Some (if neg then - int (digits_val ds) else int (digits_val ds))
              else None)
           else None))"

definition parse_decimal :: "string \<Rightarrow> rat option" where
  "parse_decimal s =
     (let ip = takeWhile is_digit s; r1 = dropWhile is_digit s;
          fp = (case r1 of [] \<Rightarrow> [] | c # t \<Rightarrow> if c = CHR ''.'' then takeWhile is_digit t else []);
          r2 = (case r1 of [] \<Rightarrow> [] | c # t \<Rightarrow> if c = CHR ''.'' then dropWhile is_digit t else r1)
      in if ip = [] \<and> fp = [] then None
         else (case parse_exponent r2 of
                 None \<Rightarrow> None
               | Some e \<Rightarrow>
                   Some ((of_nat (digits_val ip) + of_nat (digits_val fp) / 10 ^ length fp)
                         * 10 powi e)))"

definition to_double :: "string \<Rightarrow> float64" where
  "to_double s =
     (let (neg0, w) = split_sign s in
      if lower w = ''inf'' \<or> lower w = ''infinity'' then (if neg0 then NegInf else PosInf)
      else if lower w = ''nan'' then NaN
      else
        (let (neg, t) = split_sign (strip_ascii s) in
         case parse_decimal t of
           None \<Rightarrow> NaN
         | Some v \<Rightarrow> Val (if neg then - v else v)))"

text \<open>\<^verbatim>\<open>pd.to_numeric(col, errors="coerce")\<close> on one cell: a float is kept, a string parsed.\<close>

fun to_numeric :: "cell \<Rightarrow> float64" where
  "to_numeric (Str s) = to_double s"
| "to_numeric (Flt x) = x"

section \<open>The numeric normalizers\<close>

text \<open>
  \<open>clean_numeric\<close> (strict variant, lines 11-22) on the cell of one row. The argument is
  \<^verbatim>\<open>df.get(column)\<close> seen from that row: \<open>None\<close> when the chunk has no such column. Then
  \<^verbatim>\<open>clean_numeric\<close> returns the empty float64 Series, and the DataFrame constructor,
  which aligns its columns on the row labels, leaves NaN in every row.
\<close>

definition clean_numeric :: "float_repr \<Rightarrow> cell option \<Rightarrow> float64" where
  "clean_numeric R col =
     (case col of
        None \<Rightarrow> NaN
      | Some c \<Rightarrow>
          (let s = comma_to_dot (py_str R c);
               num = (case regex_search s of None \<Rightarrow> NaN | Some m \<Rightarrow> to_double m)
           in clip 0 999999 (fillna 0 num)))"

text \<open>
  The simple variant, lines 14-52: \<^verbatim>\<open>pd.to_numeric(df.get(c), errors="coerce")
  .apply(lambda x: 0.0 if (x > 999999 or x < 0) else x)\<close> on one cell.
  Line 12 (calories) has no \<^verbatim>\<open>to_numeric\<close> but \<^verbatim>\<open>fillna(0)\<close>: a string cell reaches the
  comparison with a number and raises TypeError.
\<close>

definition zero_out_of_range :: "float64 \<Rightarrow> float64" where
  "zero_out_of_range x = (if f_gt x 999999 \<or> f_lt x 0 then Val 0 else x)"

definition simple_numeric :: "cell \<Rightarrow> float64" where
  "simple_numeric c = zero_out_of_range (to_numeric c)"

definition simple_calories :: "cell \<Rightarrow> error + float64" where
  "simple_calories c =
     (case (if isna c then Flt (Val 0) else c) of
        Str s \<Rightarrow> Inl TypeError
      | Flt x \<Rightarrow> Inr (zero_out_of_range x))"

text \<open>
  \<open>servings\<close>, the same expression in both variants (strict 124-127, simple 54):
  \<^verbatim>\<open>pd.to_numeric(df.get("serving_quantity"), errors="coerce")
  .apply(lambda x: 1.0 if (pd.isna(x) or x <= 0 or x > 99) else x)\<close>.
\<close>

definition servings_val :: "cell \<Rightarrow> float64" where
  "servings_val c =
     (let x = to_numeric c in
      if x = NaN \<or> f_le x 0 \<or> f_gt x 99 then Val 1 else x)"


section \<open>Chunks and output rows\<close>

text \<open>
  A chunk is the DataFrame that \<^verbatim>\<open>pd.read_csv(..., chunksize=...)\<close> yields: its column
  names and its rows. A row carries its row label \<open>idx\<close> (the DataFrame index, which
  \<^verbatim>\<open>read_csv\<close> numbers through the whole file) and one cell per column name; the cells
  of names outside \<open>columns\<close> are never read. \<open>df_get d c r\<close> is \<^verbatim>\<open>df.get(c)\<close> seen
  from row \<open>r\<close>: \<open>None\<close> when the chunk has no column \<open>c\<close>.
\<close>

record row =
  idx :: nat
  cells :: "string \<Rightarrow> cell"

record chunk =
  columns :: "string list"
  rows :: "row list"

definition df_get :: "chunk \<Rightarrow> string \<Rightarrow> row \<Rightarrow> cell option" where
  "df_get d c r = (if c \<in> set (columns d) then Some (cells r c) else None)"

text \<open>
  A row of the DataFrame \<^verbatim>\<open>out\<close>. \<open>label\<close> is its row label, inherited from the input
  row; \<^verbatim>\<open>to_csv(index=False)\<close> does not print it. The nutrient columns are kept as the
  association list of the dict literal, output name first. A text field is a cell,
  since the simple variant stores floats where the strict one stores strings.
\<close>

record out_row =
  label :: nat
  name :: cell
  brand :: cell
  nutrients :: "(string \<times> float64) list"
  serving_size :: cell
  servings :: float64

datatype line = Header "string list" | Row out_row

text \<open>The module-level variables of both scripts, and the output file as its lines.\<close>

record state =
  seen_pairs :: "(string \<times> string) set"
  daHeader :: bool
  daCount :: nat
  csv :: "line list"

definition init :: state where
  "init = \<lparr>seen_pairs = {}, daHeader = True, daCount = 0, csv = []\<rparr>"

definition chunksize :: nat where
  "chunksize = 10 ^ 4"

text \<open>
  The nutrient entries of the dict literal (strict 81-120, simple 12-52): output name and
  source column, in the order written; and \<^verbatim>\<open>nutrient_cols\<close> of the strict variant
  (lines 151-159).
\<close>

definition nutrient_map :: "(string \<times> string) list" where
  "nutrient_map =
     [(''calories'', ''energy-kcal_100g''),
      (''total_carbs'', ''carbohydrates_100g''),
      (''fiber'', ''fiber_100g''),
      (''sugar'', ''sugars_100g''),
      (''added_sugar'', ''added-sugars_100g''),
      (''total_fats'', ''fat_100g''),
      (''omega_3'', ''omega-3-fat_100g''),
      (''omega_6'', ''omega-6-fat_100g''),
      (''saturated_fats'', ''saturated-fat_100g''),
      (''trans_fats'', ''trans-fat_100g''),
      (''protein'', ''proteins_100g''),
      (''vitamin_a'', ''vitamin-a_100g''),
      (''vitamin_b6'', ''vitamin-b6_100g''),
      (''vitamin_b12'', ''vitamin-b12_100g''),
      (''vitamin_c'', ''vitamin-c_100g''),
      (''vitamin_d'', ''vitamin-d_100g''),
      (''vitamin_e'', ''vitamin-e_100g''),
      (''vitamin_k'', ''vitamin-k_100g''),
      (''thiamin'', ''vitamin-b1_100g''),
      (''riboflavin'', ''vitamin-b2_100g''),
      (''niacin'', ''vitamin-pp_100g''),
      (''folate'', ''vitamin-b9_100g''),
      (''pantothenic_acid'', ''pantothenic-acid_100g''),
      (''biotin'', ''biotin_100g''),
      (''choline'', ''choline_100g''),
      (''calcium'', ''calcium_100g''),
      (''chromium'', ''chromium_100g''),
      (''copper'', ''copper_100g''),
      (''fluoride'', ''fluoride_100g''),
      (''iodine'', ''iodine_100g''),
      (''iron'', ''iron_100g''),
      (''magnesium'', ''magnesium_100g''),
      (''manganese'', ''manganese_100g''),
      (''molybdenum'', ''molybdenum_100g''),
      (''phosphorus'', ''phosphorus_100g''),
      (''selenium'', ''selenium_100g''),
      (''zinc'', ''zinc_100g''),
      (''potassium'', ''potassium_100g''),
      (''sodium'', ''sodium_100g''),
      (''chloride'', ''chloride_100g'')]"

definition nutrient_cols :: "string list" where
  "nutrient_cols =
     [''calories'', ''total_carbs'', ''fiber'', ''sugar'', ''added_sugar'',
      ''total_fats'', ''omega_3'', ''omega_6'', ''saturated_fats'', ''trans_fats'',
      ''protein'', ''vitamin_a'', ''vitamin_b6'', ''vitamin_b12'', ''vitamin_c'',
      ''vitamin_d'', ''vitamin_e'', ''vitamin_k'', ''thiamin'', ''riboflavin'',
      ''niacin'', ''folate'', ''pantothenic_acid'', ''biotin'', ''choline'',
      ''calcium'', ''chromium'', ''copper'', ''fluoride'', ''iodine'',
      ''iron'', ''magnesium'', ''manganese'', ''molybdenum'', ''phosphorus'',
      ''selenium'', ''zinc'', ''potassium'', ''sodium'', ''chloride'']"

text \<open>The columns of \<^verbatim>\<open>out\<close> in dict order: the header that \<^verbatim>\<open>to_csv\<close> prints.\<close>

definition out_columns :: "string list" where
  "out_columns = [''name'', ''brand''] @ map fst nutrient_map @ [''serving_size'', ''servings'']"

text \<open>
  \<^verbatim>\<open>out.to_csv(path, header=daHeader, index=False, mode="a")\<close>: the header line when
  the flag is set, then one line per row.
\<close>

definition to_csv :: "line list \<Rightarrow> bool \<Rightarrow> out_row list \<Rightarrow> line list" where
  "to_csv file header out = file @ (if header then [Header out_columns] else []) @ map Row out"

section \<open>The strict variant\<close>

text \<open>Step 1 (lines 35-38): \<^verbatim>\<open>name_col.notna() & (name_col.astype(str).str.strip() != "")\<close>.\<close>

definition has_name :: "float_repr \<Rightarrow> row \<Rightarrow> bool" where
  "has_name R r = (\<not> isna (cells r ''product_name'') \<and>
                   strip (py_str R (cells r ''product_name'')) \<noteq> [])"

text \<open>
  Step 2 (lines 43-54). \<open>row_key\<close> is the key of lines 45-47; \<open>unique_mask\<close> is the loop,
  returning the mask and the grown \<^verbatim>\<open>seen_pairs\<close>; \<open>select\<close> is \<^verbatim>\<open>df[unique_mask]\<close>.
\<close>

definition row_key :: "float_repr \<Rightarrow> row \<Rightarrow> string \<times> string" where
  "row_key R r =
     (let n = cells r ''product_name''; b = cells r ''brands'';
          nn = lower (strip (py_str R n));
          bb = (if isna b then [] else lower (strip (py_str R b)))
      in (nn, bb))"

fun unique_mask ::
  "float_repr \<Rightarrow> (string \<times> string) set \<Rightarrow> row list \<Rightarrow> bool list \<times> (string \<times> string) set" where
  "unique_mask R seen [] = ([], seen)"
| "unique_mask R seen (r # rs) =
     (let key = row_key R r in
      if key \<in> seen then
        (let (m, seen') = unique_mask R seen rs in (False # m, seen'))
      else
        (let (m, seen') = unique_mask R (insert key seen) rs in (True # m, seen')))"

definition select :: "'a list \<Rightarrow> bool list \<Rightarrow> 'a list" where
  "select xs keep = map fst (filter snd (zip xs keep))"

text \<open>
  Step 3 (lines 61-69): the first candidate column that the chunk has; a row is kept when
  \<^verbatim>\<open>pd.to_numeric(...).fillna(0) >= 0.5\<close>, and every row when there is no such column.
\<close>

definition completeness_col :: "chunk \<Rightarrow> string option" where
  "completeness_col d =
     find (\<lambda>cand. cand \<in> set (columns d))
       [''data_quality_info_score'', ''data_quality_score'', ''completeness'']"

definition complete_enough :: "chunk \<Rightarrow> row \<Rightarrow> bool" where
  "complete_enough d r =
     (case completeness_col d of
        None \<Rightarrow> True
      | Some c \<Rightarrow> f_ge (fillna 0 (to_numeric (cells r c))) (1 / 2))"

text \<open>
  Steps 4-6 (lines 77-146) for one row of the filtered chunk. \<open>fill_str\<close> is
  \<^verbatim>\<open>.fillna("").astype(str)\<close>; \<open>fix_serving_size\<close> is the \<^verbatim>\<open>where\<close> of step 5; step 6
  removes the quotes from the three object columns.
\<close>

definition fill_str :: "float_repr \<Rightarrow> cell \<Rightarrow> string" where
  "fill_str R c = (if isna c then [] else py_str R c)"

definition fix_serving_size :: "string \<Rightarrow> string" where
  "fix_serving_size s = (if strip s \<noteq> [] then s else ''100g?'')"

definition strict_row :: "float_repr \<Rightarrow> chunk \<Rightarrow> row \<Rightarrow> out_row" where
  "strict_row R d r =
     \<lparr>label = idx r,
      name = Str (remove_quotes (py_str R (cells r ''product_name''))),
      brand = Str (remove_quotes (fill_str R (cells r ''brands''))),
      nutrients = map (\<lambda>(out, src). (out, clean_numeric R (df_get d src r))) nutrient_map,
      serving_size = Str (remove_quotes (fix_serving_size (fill_str R (cells r ''serving_size'')))),
      servings = servings_val (cells r ''serving_quantity'')\<rparr>"

text \<open>
  Step 7 (line 161): \<^verbatim>\<open>(out[nutrient_cols] == 0).all(axis=1)\<close>. A comparison with NaN
  is false, so a NaN field makes the row not all-zero.
\<close>

definition field_is_zero :: "out_row \<Rightarrow> string \<Rightarrow> bool" where
  "field_is_zero w c = (map_of (nutrients w) c = Some (Val 0))"

definition all_zero :: "out_row \<Rightarrow> bool" where
  "all_zero w = list_all (field_is_zero w) nutrient_cols"

text \<open>
  One iteration of the loop (lines 24-177). The attribute and type errors are those of
  \<^verbatim>\<open>df.get\<close> returning \<open>None\<close> for an absent column: \<^verbatim>\<open>name_col.notna()\<close> (line 36),
  \<^verbatim>\<open>zip(..., None)\<close> (line 44), \<^verbatim>\<open>df.get("brands", "").fillna\<close> (line 79),
  \<^verbatim>\<open>df.get("serving_size").fillna\<close> (line 122) and \<^verbatim>\<open>.apply\<close> on the scalar that
  \<^verbatim>\<open>pd.to_numeric(None, ...)\<close> returns (line 126). Each \<^verbatim>\<open>continue\<close> and each
  exception leaves the state as it is then: \<^verbatim>\<open>seen_pairs\<close> has grown once step 2 has
  run, so an exception comes with the state it leaves behind.
\<close>

definition process_chunk ::
  "float_repr \<Rightarrow> state \<Rightarrow> chunk \<Rightarrow> (error \<times> state) + state" where
  "process_chunk R st d =
     (if ''product_name'' \<notin> set (columns d) then Inl (AttributeError, st)
      else
        let df1 = filter (has_name R) (rows d) in
        if df1 = [] then Inr st
        else if ''brands'' \<notin> set (columns d) then Inl (TypeError, st)
        else
          let (keep, seen') = unique_mask R (seen_pairs st) df1;
              st1 = st\<lparr>seen_pairs := seen'\<rparr>;
              df2 = select df1 keep
          in
          if df2 = [] then Inr st1
          else
            let df3 = filter (complete_enough d) df2 in
            if df3 = [] then Inr st1
            else if ''brands'' \<notin> set (columns d) then Inl (AttributeError, st1)
            else if ''serving_size'' \<notin> set (columns d) then Inl (AttributeError, st1)
            else if ''serving_quantity'' \<notin> set (columns d) then Inl (AttributeError, st1)
            else
              let out = filter (\<lambda>w. \<not> all_zero w) (map (strict_row R d) df3) in
              if out = [] then Inr st1
              else Inr (st1\<lparr>csv := to_csv (csv st1) (daHeader st1) out,
                             daHeader := False,
                             daCount := daCount st1 + length out\<rparr>))"

text \<open>
  The whole loop. An exception ends the run: the result is the state that the failing
  chunk leaves behind, and the exception.
\<close>

fun strict_run :: "float_repr \<Rightarrow> state \<Rightarrow> chunk list \<Rightarrow> state \<times> error option" where
  "strict_run R st [] = (st, None)"
| "strict_run R st (d # ds) =
     (case process_chunk R st d of
        Inl (e, st') \<Rightarrow> (st', Some e)
      | Inr st' \<Rightarrow> strict_run R st' ds)"

section \<open>The simple variant\<close>

text \<open>
  Line 10: \<^verbatim>\<open>.fillna("").replace(r"^\s*$", "Unknown Product", regex=True)\<close>; the regex
  replacement touches strings only. Line 11: \<^verbatim>\<open>df.get("brands")\<close> as it is, a column of
  \<open>None\<close> (written like a missing cell) when the chunk has no such column.
\<close>

definition simple_name :: "cell \<Rightarrow> cell" where
  "simple_name c =
     (case (if isna c then Str [] else c) of
        Str s \<Rightarrow> if list_all is_space s then Str ''Unknown Product'' else Str s
      | Flt x \<Rightarrow> Flt x)"

definition simple_brand :: "cell option \<Rightarrow> cell" where
  "simple_brand col = (case col of None \<Rightarrow> Flt NaN | Some c \<Rightarrow> c)"

definition simple_row :: "chunk \<Rightarrow> row \<Rightarrow> out_row" where
  "simple_row d r =
     \<lparr>label = idx r,
      name = simple_name (cells r ''product_name''),
      brand = simple_brand (df_get d ''brands'' r),
      nutrients =
        (''calories'', (case simple_calories (cells r ''energy-kcal_100g'') of
                          Inl e \<Rightarrow> NaN | Inr x \<Rightarrow> x)) #
        map (\<lambda>(out, src). (out, simple_numeric (cells r src))) (tl nutrient_map),
      serving_size = Flt (simple_numeric (cells r ''serving_size'')),
      servings = servings_val (cells r ''serving_quantity'')\<rparr>"

text \<open>
  The dict literal of lines 9-55, entry by entry: an absent column raises AttributeError
  (\<^verbatim>\<open>None.fillna\<close>, or \<^verbatim>\<open>.apply\<close> on the scalar of \<^verbatim>\<open>pd.to_numeric(None, ...)\<close>), a string
  in the calories column raises TypeError.
\<close>

definition simple_out :: "chunk \<Rightarrow> error + out_row list" where
  "simple_out d =
     (if ''product_name'' \<notin> set (columns d) then Inl AttributeError
      else if ''energy-kcal_100g'' \<notin> set (columns d) then Inl AttributeError
      else if \<not> list_all (\<lambda>r. case simple_calories (cells r ''energy-kcal_100g'') of
                                  Inl e \<Rightarrow> False | Inr x \<Rightarrow> True) (rows d)
        then Inl TypeError
      else if \<not> list_all (\<lambda>(out, src). src \<in> set (columns d)) (tl nutrient_map)
        then Inl AttributeError
      else if ''serving_size'' \<notin> set (columns d) then Inl AttributeError
      else if ''serving_quantity'' \<notin> set (columns d) then Inl AttributeError
      else Inr (map (simple_row d) (rows d)))"

definition simple_chunk :: "state \<Rightarrow> chunk \<Rightarrow> error + state" where
  "simple_chunk st d =
     (case simple_out d of
        Inl e \<Rightarrow> Inl e
      | Inr out \<Rightarrow>
          Inr (st\<lparr>csv := to_csv (csv st) (daHeader st) out,
                  daCount := daCount st + chunksize,
                  daHeader := False\<rparr>))"

fun simple_run :: "state \<Rightarrow> chunk list \<Rightarrow> state \<times> error option" where
  "simple_run st [] = (st, None)"
| "simple_run st (d # ds) =
     (case simple_chunk st d of
        Inl e \<Rightarrow> (st, Some e)
      | Inr st' \<Rightarrow> simple_run st' ds)"


section \<open>Runs, input records and the output file\<close>

text \<open>
  The input of a run is the list of its chunks. \<open>tagged\<close> lists the input records in
  input order, each with the chunk it came in; \<open>all_rows\<close> lists the records alone.
  \<open>written\<close> is the rows of the output file, and a record \<open>appears\<close> in the file when a
  written row carries its row label.
\<close>

definition tagged :: "chunk list \<Rightarrow> (chunk \<times> row) list" where
  "tagged ds = concat (map (\<lambda>d. map (Pair d) (rows d)) ds)"

definition all_rows :: "chunk list \<Rightarrow> row list" where
  "all_rows ds = concat (map rows ds)"

definition written :: "state \<Rightarrow> out_row list" where
  "written st = concat (map (\<lambda>l. case l of Header h \<Rightarrow> [] | Row w \<Rightarrow> [w]) (csv st))"

definition appears :: "state \<Rightarrow> row \<Rightarrow> bool" where
  "appears st r = (idx r \<in> label ` set (written st))"

text \<open>The field names of the output in the order that the specification lists.\<close>

definition canonical_fields :: "string list" where
  "canonical_fields =
     [''name'', ''brand'', ''calories'', ''total_carbs'', ''fiber'',
      ''sugar'', ''added_sugar'', ''total_fats'', ''omega_3'', ''omega_6'',
      ''saturated_fats'', ''trans_fats'', ''protein'', ''vitamin_a'', ''vitamin_b6'',
      ''vitamin_b12'', ''vitamin_c'', ''vitamin_d'', ''vitamin_e'', ''vitamin_k'',
      ''thiamin'', ''riboflavin'', ''niacin'', ''folate'', ''pantothenic_acid'',
      ''biotin'', ''choline'', ''calcium'', ''chromium'', ''copper'',
      ''fluoride'', ''iodine'', ''iron'', ''magnesium'', ''manganese'',
      ''molybdenum'', ''phosphorus'', ''selenium'', ''zinc'', ''potassium'',
      ''sodium'', ''chloride'', ''serving_size'', ''servings'']"


text \<open>Example inputs: a row from the cells it has (the others missing), and column sets.\<close>

definition mk_row :: "nat \<Rightarrow> (string \<times> cell) list \<Rightarrow> row" where
  "mk_row i kv =
     \<lparr>idx = i, cells = (\<lambda>c. case map_of kv c of Some v \<Rightarrow> v | None \<Rightarrow> Flt NaN)\<rparr>"

definition full_columns :: "string list" where
  "full_columns =
     [''product_name'', ''brands'', ''serving_size'', ''serving_quantity''] @ map snd nutrient_map"

text \<open>
  The rows that one chunk adds to the file, given \<^verbatim>\<open>seen_pairs\<close> before the chunk: steps
  1 to 7 of the loop body as one expression. \<open>header_count\<close> counts the header lines of
  the file.
\<close>

definition chunk_out :: "float_repr \<Rightarrow> (string \<times> string) set \<Rightarrow> chunk \<Rightarrow> out_row list" where
  "chunk_out R seen d =
     (let df1 = filter (has_name R) (rows d);
          df2 = select df1 (fst (unique_mask R seen df1));
          df3 = filter (complete_enough d) df2
      in filter (\<lambda>w. \<not> all_zero w) (map (strict_row R d) df3))"

fun is_header :: "line \<Rightarrow> bool" where
  "is_header (Header h) = True"
| "is_header (Row w) = False"

definition header_count :: "state \<Rightarrow> nat" where
  "header_count st = length (filter is_header (csv st))"

text \<open>
  An example input of two chunks with every consumed column and no completeness column.
  \<open>row_apple\<close> has no nutrient cell, \<open>row_blank\<close> a blank name, \<open>row_pear\<close> a fiber
  cell with a decimal comma and a unit; in the second chunk \<open>row_apple2\<close> repeats the
  key of \<open>row_apple\<close> and \<open>row_water\<close> has the float \<open>0.0\<close> in every nutrient column.
\<close>

definition row_apple :: row where
  "row_apple = mk_row 0 [(''product_name'', Str ''Apple''), (''brands'', Str ''BrandX'')]"

definition row_blank :: row where
  "row_blank = mk_row 1 [(''product_name'', Str ''  ''), (''brands'', Str ''BrandX'')]"

definition row_pear :: row where
  "row_pear = mk_row 2 [(''product_name'', Str ''Pear''), (''brands'', Str ''BrandY''),
     (''fiber_100g'', Str ''2,5 g''),
     (''serving_size'', Str (''1 '' @ [CHR 0x22] @ ''cup'' @ [CHR 0x22])),
     (''serving_quantity'', Str ''150'')]"

definition row_apple2 :: row where
  "row_apple2 = mk_row 3 [(''product_name'', Str '' apple''), (''brands'', Str ''brandx ''),
     (''fiber_100g'', Str ''2,5 g'')]"

definition row_water :: row where
  "row_water = \<lparr>idx = 4, cells = (\<lambda>c. if c = ''product_name'' then Str ''Water''
                                     else if c = ''brands'' then Str ''Tap''
                                     else Flt (Val 0))\<rparr>"

definition chunk1 :: chunk where
  "chunk1 = \<lparr>columns = full_columns, rows = [row_apple, row_blank, row_pear]\<rparr>"

definition chunk2 :: chunk where
  "chunk2 = \<lparr>columns = full_columns, rows = [row_apple2, row_water]\<rparr>"

definition example_run :: "chunk list" where
  "example_run = [chunk1, chunk2]"

text \<open>
  Two chunks that lack consumed columns: one without the \<^verbatim>\<open>brands\<close> column, one with
  no nutrient column at all.
\<close>

definition chunk_no_brands :: chunk where
  "chunk_no_brands =
     \<lparr>columns = [''product_name'', ''serving_size'', ''serving_quantity''] @ map snd nutrient_map,
      rows = [row_pear]\<rparr>"

definition chunk_no_nutrients :: chunk where
  "chunk_no_nutrients =
     \<lparr>columns = [''product_name'', ''brands'', ''serving_size'', ''serving_quantity''],
      rows = [row_apple]\<rparr>"

text \<open>A chunk whose only record has no nutrient data.\<close>

definition chunk_apple :: chunk where
  "chunk_apple = \<lparr>columns = full_columns, rows = [row_apple]\<rparr>"

text \<open>
  The state of the header flag and the file between two chunks: nothing written while
  the flag is set, and afterwards one header line followed by rows.
\<close>

definition header_inv :: "state \<Rightarrow> bool" where
  "header_inv st = (if daHeader st then csv st = []
                    else csv st = Header out_columns # map Row (written st))"

definition repr0 :: float_repr where
  "repr0 x = ''0.0''"

text \<open>
  What Python prints for three floats, \<open>1e-05\<close>, \<open>2.5\<close> and \<open>0.0\<close>; the other values
  of this example function are not used.
\<close>

definition repr_ex :: float_repr where
  "repr_ex x = (if x = 1 / 100000 then ''1e-05'' else if x = 5 / 2 then ''2.5'' else ''0.0'')"

section \<open>Facts about the tables\<close>

lemma out_columns_canonical: "out_columns = canonical_fields"
  by (simp add: out_columns_def canonical_fields_def nutrient_map_def)

lemma nutrient_cols_eq: "nutrient_cols = map fst nutrient_map"
  by (simp add: nutrient_map_def nutrient_cols_def)

lemma distinct_nutrient_names: "distinct (map fst nutrient_map)"
  by (simp add: nutrient_map_def)

lemma map_of_mapped:
  "distinct (map fst kv) \<Longrightarrow> (k, v) \<in> set kv \<Longrightarrow>
   map_of (map (\<lambda>(a, b). (a, f b)) kv) k = Some (f v)"
  by (induction kv) (auto simp: rev_image_eqI)

lemma all_zero_strict_row:
  "all_zero (strict_row R d r) \<longleftrightarrow>
   (\<forall>(out, src) \<in> set nutrient_map. clean_numeric R (df_get d src r) = Val 0)"
proof -
  have "all_zero (strict_row R d r) \<longleftrightarrow>
        (\<forall>(out, src) \<in> set nutrient_map. field_is_zero (strict_row R d r) out)"
    by (auto simp: all_zero_def nutrient_cols_eq list_all_iff)
  also have "\<dots> \<longleftrightarrow> (\<forall>(out, src) \<in> set nutrient_map. clean_numeric R (df_get d src r) = Val 0)"
    using map_of_mapped[OF distinct_nutrient_names, where f = "\<lambda>src. clean_numeric R (df_get d src r)"]
    by (auto simp: field_is_zero_def strict_row_def)
  finally show ?thesis .
qed

section \<open>The numeric normalizers stay in range\<close>

lemma clean_numeric_range:
  "\<exists>v. clean_numeric R (Some c) = Val v \<and> 0 \<le> v \<and> v \<le> 999999"
proof -
  have "\<exists>v. clip 0 999999 (fillna 0 x) = Val v \<and> 0 \<le> v \<and> v \<le> 999999" for x
    by (cases x) (auto simp: fillna_def)
  then show ?thesis by (simp add: clean_numeric_def Let_def)
qed

lemma clean_numeric_unparsable:
  "regex_search (comma_to_dot (py_str R c)) = None \<Longrightarrow> clean_numeric R (Some c) = Val 0"
  by (simp add: clean_numeric_def fillna_def)

lemma simple_numeric_range:
  "simple_numeric c = NaN \<or> (\<exists>v. simple_numeric c = Val v \<and> 0 \<le> v \<and> v \<le> 999999)"
  by (cases "to_numeric c") (auto simp: simple_numeric_def zero_out_of_range_def)

lemma simple_numeric_NaN: "simple_numeric c = NaN \<longleftrightarrow> to_numeric c = NaN"
  by (cases "to_numeric c") (auto simp: simple_numeric_def zero_out_of_range_def)

lemma servings_val_range: "\<exists>v. servings_val c = Val v \<and> 0 < v \<and> v \<le> 99"
  by (cases "to_numeric c") (auto simp: servings_val_def Let_def)

text \<open>
  C1, as amended. For every cell \<open>c\<close> of a column that the chunk has, \<open>clean_numeric\<close>
  (the strict variant) yields a finite value in \<open>[0, 999999]\<close>, and \<open>0.0\<close> when the
  pattern finds no numeral in the cell; it raises nothing. The per-cell expression of
  the simple variant yields NaN exactly when \<^verbatim>\<open>pd.to_numeric\<close> gives NaN for the cell
  (a missing or unparsable cell), and a finite value in \<open>[0, 999999]\<close> otherwise.
\<close>

theorem C1_normalizers_in_range:
  "(\<exists>v. clean_numeric R (Some c) = Val v \<and> 0 \<le> v \<and> v \<le> 999999 \<and>
        (regex_search (comma_to_dot (py_str R c)) = None \<longrightarrow> v = 0)) \<and>
   (simple_numeric c = NaN \<longleftrightarrow> to_numeric c = NaN) \<and>
   (simple_numeric c = NaN \<or> (\<exists>v. simple_numeric c = Val v \<and> 0 \<le> v \<and> v \<le> 999999))"
proof -
  obtain v where v: "clean_numeric R (Some c) = Val v" "0 \<le> v" "v \<le> 999999"
    using clean_numeric_range by blast
  have "regex_search (comma_to_dot (py_str R c)) = None \<longrightarrow> v = 0"
    using clean_numeric_unparsable[of R c] v(1) by auto
  with v have "\<exists>v. clean_numeric R (Some c) = Val v \<and> 0 \<le> v \<and> v \<le> 999999 \<and>
        (regex_search (comma_to_dot (py_str R c)) = None \<longrightarrow> v = 0)"
    by (intro exI[of _ v]) simp
  then show ?thesis
    using simple_numeric_range[of c] simple_numeric_NaN[of c] by simp
qed

theorem C1_normalizers_in_range_witness:
  "regex_search (comma_to_dot (py_str repr0 (Str ''n/a''))) = None \<and>
   clean_numeric repr0 (Some (Str ''n/a'')) = Val 0 \<and>
   to_numeric (Str ''n/a'') = NaN \<and> simple_numeric (Str ''n/a'') = NaN"
proof -
  have h: "regex_search (comma_to_dot (py_str repr0 (Str ''n/a''))) = None"
    by (simp add: comma_to_dot_def match_here_def match_body_def is_digit_def)
  have n: "to_numeric (Str ''n/a'') = NaN"
    by (simp add: to_double_def split_sign_def strip_ascii_def is_c_space_def lower_def
        lower_char_def upper_chars_def lower_chars_def parse_decimal_def is_digit_def)
  show ?thesis
    using C1_normalizers_in_range[of repr0 "Str ''n/a''"] h n by auto
qed

text \<open>
  The claim as written fails in the simple variant: a missing cell of a nutrient column
  stays NaN, which is neither finite nor the default \<open>0.0\<close>.
\<close>

theorem C1_counterexample:
  "simple_numeric (Flt NaN) = NaN \<and>
   \<not> (\<exists>v. simple_numeric (Flt NaN) = Val v \<and> 0 \<le> v \<and> v \<le> 999999)"
  by (simp add: simple_numeric_def zero_out_of_range_def)

section \<open>The two normalizers on plain numerals\<close>







lemma dropWhile_all: "list_all P xs \<Longrightarrow> dropWhile P xs = []"
  by (simp add: list_all_iff)




text \<open>The definitions that evaluate the parsers on a literal.\<close>

lemmas ev = comma_to_dot_def match_body_def match_here_def is_digit_def
  to_double_def split_sign_def strip_ascii_def is_c_space_def strip_def is_space_def
  lower_def lower_char_def upper_chars_def lower_chars_def
  parse_decimal_def parse_exponent_def digits_val_def digit_val_def fillna_def Let_def





section \<open>One chunk of the strict variant\<close>

lemma select_simps [simp]:
  "select [] m = []" "select xs [] = []"
  "select (x # xs) (b # m) = (if b then x # select xs m else select xs m)"
  by (simp_all add: select_def)

lemma unique_mask_seen: "snd (unique_mask R seen rs) = seen \<union> row_key R ` set rs"
  by (induction rs arbitrary: seen) (auto simp: Let_def case_prod_beta)

lemma unique_mask_first:
  "r \<in> set (select rs (fst (unique_mask R seen rs))) \<Longrightarrow>
   \<exists>xs ys. rs = xs @ r # ys \<and> row_key R r \<notin> seen \<and> row_key R r \<notin> row_key R ` set xs"
proof (induction rs arbitrary: seen)
  case Nil
  then show ?case by simp
next
  case (Cons r0 rs)
  show ?case
  proof (cases "row_key R r0 \<in> seen")
    case True
    then have "r \<in> set (select rs (fst (unique_mask R seen rs)))"
      using Cons.prems by (simp add: Let_def case_prod_beta)
    then obtain xs ys where h: "rs = xs @ r # ys" "row_key R r \<notin> seen"
        "row_key R r \<notin> row_key R ` set xs"
      using Cons.IH by blast
    then have "r0 # rs = (r0 # xs) @ r # ys \<and> row_key R r \<notin> seen \<and>
               row_key R r \<notin> row_key R ` set (r0 # xs)"
      using True by auto
    then show ?thesis by blast
  next
    case False
    then have "r = r0 \<or> r \<in> set (select rs (fst (unique_mask R (insert (row_key R r0) seen) rs)))"
      using Cons.prems by (simp add: Let_def case_prod_beta)
    then show ?thesis
    proof
      assume "r = r0"
      then have "r0 # rs = [] @ r # rs \<and> row_key R r \<notin> seen \<and> row_key R r \<notin> row_key R ` set []"
        using False by simp
      then show ?thesis by blast
    next
      assume "r \<in> set (select rs (fst (unique_mask R (insert (row_key R r0) seen) rs)))"
      then obtain xs ys where h: "rs = xs @ r # ys" "row_key R r \<notin> insert (row_key R r0) seen"
        "row_key R r \<notin> row_key R ` set xs"
        using Cons.IH by blast
      then have "r0 # rs = (r0 # xs) @ r # ys \<and> row_key R r \<notin> seen \<and>
               row_key R r \<notin> row_key R ` set (r0 # xs)"
        by auto
      then show ?thesis by blast
    qed
  qed
qed

lemma chunk_out_empty [simp]: "filter (has_name R) (rows d) = [] \<Longrightarrow> chunk_out R seen d = []"
  by (simp add: chunk_out_def)

lemma process_chunk_Inr:
  assumes "process_chunk R st d = Inr st'"
  shows "seen_pairs st' = seen_pairs st \<union> row_key R ` set (filter (has_name R) (rows d)) \<and>
         csv st' = (if chunk_out R (seen_pairs st) d = [] then csv st
                    else to_csv (csv st) (daHeader st) (chunk_out R (seen_pairs st) d)) \<and>
         daHeader st' = (daHeader st \<and> chunk_out R (seen_pairs st) d = [])"
proof -
  define df1 where "df1 = filter (has_name R) (rows d)"
  define um where "um = unique_mask R (seen_pairs st) df1"
  define st1 where "st1 = st\<lparr>seen_pairs := snd um\<rparr>"
  define df2 where "df2 = select df1 (fst um)"
  define df3 where "df3 = filter (complete_enough d) df2"
  define out where "out = filter (\<lambda>w. \<not> all_zero w) (map (strict_row R d) df3)"
  define st2 where "st2 = st1\<lparr>csv := to_csv (csv st1) (daHeader st1) out,
                             daHeader := False, daCount := daCount st1 + length out\<rparr>"
  have pc: "process_chunk R st d =
      (if ''product_name'' \<notin> set (columns d) then Inl (AttributeError, st)
       else if df1 = [] then Inr st
       else if ''brands'' \<notin> set (columns d) then Inl (TypeError, st)
       else if df2 = [] then Inr st1
       else if df3 = [] then Inr st1
       else if ''brands'' \<notin> set (columns d) then Inl (AttributeError, st1)
       else if ''serving_size'' \<notin> set (columns d) then Inl (AttributeError, st1)
       else if ''serving_quantity'' \<notin> set (columns d) then Inl (AttributeError, st1)
       else if out = [] then Inr st1 else Inr st2)"
    unfolding process_chunk_def df1_def um_def st1_def df2_def df3_def out_def st2_def
      Let_def case_prod_beta
    by (rule refl)
  have co: "chunk_out R (seen_pairs st) d = out"
    unfolding chunk_out_def df1_def um_def df2_def df3_def out_def Let_def by (rule refl)
  have seen1: "seen_pairs st1 = seen_pairs st \<union> row_key R ` set df1"
    unfolding st1_def um_def by (simp add: unique_mask_seen)
  have e1: "df1 = [] \<Longrightarrow> out = []"
    unfolding out_def df3_def df2_def by simp
  have e2: "df2 = [] \<Longrightarrow> out = []"
    unfolding out_def df3_def by simp
  have e3: "df3 = [] \<Longrightarrow> out = []"
    unfolding out_def by simp
  consider (a) "df1 = []" "st' = st" | (b) "out = []" "st' = st1" | (c) "out \<noteq> []" "st' = st2"
    using assms e2 e3 unfolding pc by (auto split: if_splits)
  then show ?thesis
  proof cases
    case a
    then show ?thesis using e1 by (simp add: co df1_def[symmetric])
  next
    case b
    then show ?thesis using seen1 by (simp add: co df1_def[symmetric] st1_def)
  next
    case c
    then show ?thesis using seen1 by (simp add: co df1_def[symmetric] st1_def st2_def)
  qed
qed

lemma process_chunk_Inl:
  assumes "process_chunk R st d = Inl (e, s)"
  shows "csv s = csv st \<and> daHeader s = daHeader st"
proof -
  define df1 where "df1 = filter (has_name R) (rows d)"
  define um where "um = unique_mask R (seen_pairs st) df1"
  define st1 where "st1 = st\<lparr>seen_pairs := snd um\<rparr>"
  define df2 where "df2 = select df1 (fst um)"
  define df3 where "df3 = filter (complete_enough d) df2"
  define out where "out = filter (\<lambda>w. \<not> all_zero w) (map (strict_row R d) df3)"
  define st2 where "st2 = st1\<lparr>csv := to_csv (csv st1) (daHeader st1) out,
                             daHeader := False, daCount := daCount st1 + length out\<rparr>"
  have pc: "process_chunk R st d =
      (if ''product_name'' \<notin> set (columns d) then Inl (AttributeError, st)
       else if df1 = [] then Inr st
       else if ''brands'' \<notin> set (columns d) then Inl (TypeError, st)
       else if df2 = [] then Inr st1
       else if df3 = [] then Inr st1
       else if ''brands'' \<notin> set (columns d) then Inl (AttributeError, st1)
       else if ''serving_size'' \<notin> set (columns d) then Inl (AttributeError, st1)
       else if ''serving_quantity'' \<notin> set (columns d) then Inl (AttributeError, st1)
       else if out = [] then Inr st1 else Inr st2)"
    unfolding process_chunk_def df1_def um_def st1_def df2_def df3_def out_def st2_def
      Let_def case_prod_beta
    by (rule refl)
  have "s = st \<or> s = st1"
    using assms unfolding pc by (auto split: if_splits)
  then show ?thesis by (auto simp: st1_def)
qed

lemma process_chunk_seen:
  "process_chunk R st d = Inr st' \<Longrightarrow>
   seen_pairs st' = seen_pairs st \<union> row_key R ` set (filter (has_name R) (rows d))"
  using process_chunk_Inr by blast

lemma process_chunk_csv:
  "process_chunk R st d = Inr st' \<Longrightarrow>
   csv st' = (if chunk_out R (seen_pairs st) d = [] then csv st
              else to_csv (csv st) (daHeader st) (chunk_out R (seen_pairs st) d))"
  using process_chunk_Inr by blast

lemma process_chunk_header:
  "process_chunk R st d = Inr st' \<Longrightarrow>
   daHeader st' = (daHeader st \<and> chunk_out R (seen_pairs st) d = [])"
  using process_chunk_Inr by blast

section \<open>Where a written row comes from\<close>

lemma tagged_Cons: "tagged (d # ds) = map (Pair d) (rows d) @ tagged ds"
  by (simp add: tagged_def)

lemma tagged_Nil [simp]: "tagged [] = []"
  by (simp add: tagged_def)

lemma map_snd_tagged: "map snd (tagged ds) = all_rows ds"
  by (induction ds) (simp_all add: tagged_Cons all_rows_def comp_def)

lemma written_to_csv:
  "written (st\<lparr>csv := to_csv (csv st) h out\<rparr>) = written st @ out"
  by (simp add: written_def to_csv_def comp_def)

lemma written_to_csv':
  "csv st' = to_csv (csv st) h out \<Longrightarrow> written st' = written st @ out"
  by (simp add: written_def to_csv_def comp_def)

lemma process_chunk_written:
  assumes "process_chunk R st d = Inr st'"
  shows "written st' = written st @ chunk_out R (seen_pairs st) d"
proof (cases "chunk_out R (seen_pairs st) d = []")
  case True
  then show ?thesis using process_chunk_csv[OF assms] by (simp add: written_def)
next
  case False
  then show ?thesis using process_chunk_csv[OF assms] by (simp add: written_to_csv')
qed

lemma filter_eq_split:
  "filter P xs = ys @ r # zs \<Longrightarrow> \<exists>us vs. xs = us @ r # vs \<and> filter P us = ys \<and> P r"
proof (induction xs arbitrary: ys)
  case Nil
  then show ?case by simp
next
  case (Cons x xs)
  show ?case
  proof (cases "P x")
    case False
    then have "filter P xs = ys @ r # zs" using Cons.prems by simp
    from Cons.IH[OF this] obtain us vs where "xs = us @ r # vs" "filter P us = ys" "P r"
      by blast
    then have "x # xs = (x # us) @ r # vs \<and> filter P (x # us) = ys \<and> P r"
      using False by simp
    then show ?thesis by blast
  next
    case True
    then have e: "x # filter P xs = ys @ r # zs" using Cons.prems by simp
    show ?thesis
    proof (cases ys)
      case Nil
      then have "x # xs = [] @ r # xs \<and> filter P [] = ys \<and> P r"
        using e True by simp
      then show ?thesis by blast
    next
      case (Cons y ys')
      then have "filter P xs = ys' @ r # zs" "x = y" using e by simp_all
      from Cons.IH[OF this(1)] obtain us vs where "xs = us @ r # vs" "filter P us = ys'" "P r"
        by blast
      then have "x # xs = (x # us) @ r # vs \<and> filter P (x # us) = ys \<and> P r"
        using True Cons \<open>x = y\<close> by simp
      then show ?thesis by blast
    qed
  qed
qed

lemma chunk_out_origin:
  assumes "w \<in> set (chunk_out R seen d)"
  shows "\<exists>xs r ys. rows d = xs @ r # ys \<and> w = strict_row R d r \<and> has_name R r \<and>
           row_key R r \<notin> seen \<and>
           (\<forall>r' \<in> set xs. has_name R r' \<longrightarrow> row_key R r' \<noteq> row_key R r) \<and>
           complete_enough d r \<and> \<not> all_zero (strict_row R d r)"
proof -
  let ?df1 = "filter (has_name R) (rows d)"
  from assms obtain r where r: "w = strict_row R d r" "\<not> all_zero (strict_row R d r)"
      "complete_enough d r" "r \<in> set (select ?df1 (fst (unique_mask R seen ?df1)))"
    by (auto simp: chunk_out_def Let_def)
  from unique_mask_first[OF r(4)] obtain xs1 ys1 where
    f: "?df1 = xs1 @ r # ys1" "row_key R r \<notin> seen" "row_key R r \<notin> row_key R ` set xs1"
    by blast
  from filter_eq_split[OF f(1)] obtain us vs where
    u: "rows d = us @ r # vs" "filter (has_name R) us = xs1" "has_name R r"
    by blast
  have "\<forall>r' \<in> set us. has_name R r' \<longrightarrow> row_key R r' \<noteq> row_key R r"
  proof (intro ballI impI)
    fix r' assume a: "r' \<in> set us" "has_name R r'"
    then have "r' \<in> set xs1" using u(2) by auto
    then show "row_key R r' \<noteq> row_key R r" using f(3) by (metis imageI)
  qed
  then show ?thesis using r f(2) u(1,3) by blast
qed

lemma strict_run_Cons_Inr:
  "process_chunk R st d = Inr st1 \<Longrightarrow> strict_run R st (d # ds) = strict_run R st1 ds"
  by simp

lemma strict_run_Cons_Inl:
  "process_chunk R st d = Inl (e, s) \<Longrightarrow> strict_run R st (d # ds) = (s, Some e)"
  by simp

lemma strict_origin:
  "w \<in> set (written (fst (strict_run R st ds))) \<Longrightarrow>
   w \<in> set (written st) \<or>
   (\<exists>pre d r post. tagged ds = pre @ (d, r) # post \<and> w = strict_row R d r \<and> has_name R r \<and>
      row_key R r \<notin> seen_pairs st \<and>
      (\<forall>p \<in> set pre. has_name R (snd p) \<longrightarrow> row_key R (snd p) \<noteq> row_key R r) \<and>
      complete_enough d r \<and> \<not> all_zero (strict_row R d r))"
proof (induction ds arbitrary: st)
  case Nil
  then show ?case by simp
next
  case (Cons d ds)
  show ?case
  proof (cases "process_chunk R st d")
    case (Inl es)
    obtain e s where es: "es = (e, s)" by (cases es)
    have "csv s = csv st" using process_chunk_Inl Inl es by blast
    then have "written s = written st" by (simp add: written_def)
    then show ?thesis using Cons.prems Inl es by simp
  next
    case (Inr st1)
    then have "w \<in> set (written (fst (strict_run R st1 ds)))"
      using Cons.prems by simp
    from Cons.IH[OF this] consider
      (old) "w \<in> set (written st1)"
      | (new) pre d' r post where "tagged ds = pre @ (d', r) # post" "w = strict_row R d' r"
          "has_name R r" "row_key R r \<notin> seen_pairs st1"
          "\<forall>p \<in> set pre. has_name R (snd p) \<longrightarrow> row_key R (snd p) \<noteq> row_key R r"
          "complete_enough d' r" "\<not> all_zero (strict_row R d' r)"
      by blast
    then show ?thesis
    proof cases
      case old
      then consider "w \<in> set (written st)" | "w \<in> set (chunk_out R (seen_pairs st) d)"
        using process_chunk_written[OF Inr] by auto
      then show ?thesis
      proof cases
        case 1
        then show ?thesis by simp
      next
        case 2
        from chunk_out_origin[OF 2] obtain xs r ys where
          o: "rows d = xs @ r # ys" "w = strict_row R d r" "has_name R r"
             "row_key R r \<notin> seen_pairs st"
             "\<forall>r' \<in> set xs. has_name R r' \<longrightarrow> row_key R r' \<noteq> row_key R r"
             "complete_enough d r" "\<not> all_zero (strict_row R d r)"
          by blast
        have "tagged (d # ds) = map (Pair d) xs @ (d, r) # (map (Pair d) ys @ tagged ds)"
          by (simp add: tagged_Cons o(1))
        moreover have "\<forall>p \<in> set (map (Pair d) xs).
            has_name R (snd p) \<longrightarrow> row_key R (snd p) \<noteq> row_key R r"
          using o(5) by auto
        ultimately show ?thesis using o by blast
      qed
    next
      case new
      have seen1: "seen_pairs st1 = seen_pairs st \<union> row_key R ` set (filter (has_name R) (rows d))"
        by (rule process_chunk_seen[OF Inr])
      have "tagged (d # ds) = (map (Pair d) (rows d) @ pre) @ (d', r) # post"
        by (simp add: tagged_Cons new(1))
      moreover have "\<forall>p \<in> set (map (Pair d) (rows d) @ pre).
            has_name R (snd p) \<longrightarrow> row_key R (snd p) \<noteq> row_key R r"
      proof (intro ballI impI)
        fix p assume a: "p \<in> set (map (Pair d) (rows d) @ pre)" "has_name R (snd p)"
        show "row_key R (snd p) \<noteq> row_key R r"
        proof (cases "p \<in> set pre")
          case True
          then show ?thesis using new(5) a(2) by blast
        next
          case False
          then have "snd p \<in> set (filter (has_name R) (rows d))" using a by auto
          then have "row_key R (snd p) \<in> seen_pairs st1" unfolding seen1 by (metis UnI2 imageI)
          then show ?thesis using new(4) by metis
        qed
      qed
      moreover have "row_key R r \<notin> seen_pairs st" using new(4) seen1 by blast
      ultimately show ?thesis using new by blast
    qed
  qed
qed

section \<open>The simple variant and the header\<close>

lemma simple_chunk_csv:
  "simple_chunk st d = Inr st' \<Longrightarrow>
   csv st' = to_csv (csv st) (daHeader st) (map (simple_row d) (rows d)) \<and> \<not> daHeader st'"
proof -
  assume a: "simple_chunk st d = Inr st'"
  then obtain out where o: "simple_out d = Inr out"
    by (cases "simple_out d") (simp_all add: simple_chunk_def)
  have "out = map (simple_row d) (rows d)"
    using o unfolding simple_out_def by (simp split: if_splits)
  then show ?thesis
    using a o by (auto simp: simple_chunk_def)
qed

lemma simple_origin:
  "w \<in> set (written (fst (simple_run st ds))) \<Longrightarrow>
   w \<in> set (written st) \<or> (\<exists>d r. (d, r) \<in> set (tagged ds) \<and> w = simple_row d r)"
proof (induction ds arbitrary: st)
  case Nil
  then show ?case by simp
next
  case (Cons d ds)
  show ?case
  proof (cases "simple_chunk st d")
    case (Inl e)
    then show ?thesis using Cons.prems by simp
  next
    case (Inr st1)
    then have "w \<in> set (written (fst (simple_run st1 ds)))"
      using Cons.prems by simp
    from Cons.IH[OF this] consider
      (old) "w \<in> set (written st1)"
      | (new) d' r where "(d', r) \<in> set (tagged ds)" "w = simple_row d' r"
      by blast
    then show ?thesis
    proof cases
      case old
      have "written st1 = written st @ map (simple_row d) (rows d)"
        using simple_chunk_csv[OF Inr] by (simp add: written_to_csv')
      then consider "w \<in> set (written st)" | r where "r \<in> set (rows d)" "w = simple_row d r"
        using old by auto
      then show ?thesis
      proof cases
        case 1
        then show ?thesis by simp
      next
        case 2
        then have "(d, r) \<in> set (tagged (d # ds))" by (simp add: tagged_Cons)
        then show ?thesis using 2(2) by blast
      qed
    next
      case new
      then have "(d', r) \<in> set (tagged (d # ds))" by (simp add: tagged_Cons)
      then show ?thesis using new(2) by blast
    qed
  qed
qed

lemma header_inv_init: "header_inv init"
  by (simp add: header_inv_def init_def)

lemma header_inv_to_csv:
  assumes "header_inv st" and "csv st' = to_csv (csv st) (daHeader st) out" and "\<not> daHeader st'"
  shows "header_inv st'"
proof -
  have w: "written st' = written st @ out"
    using assms(2) by (rule written_to_csv')
  show ?thesis
  proof (cases "daHeader st")
    case True
    then have "csv st = []" using assms(1) by (simp add: header_inv_def)
    then have "written st = []" by (simp add: written_def)
    then show ?thesis
      using True assms(2,3) w \<open>csv st = []\<close> by (simp add: header_inv_def to_csv_def)
  next
    case False
    then have "csv st = Header out_columns # map Row (written st)"
      using assms(1) by (simp add: header_inv_def)
    then show ?thesis
      using False assms(2,3) w by (simp add: header_inv_def to_csv_def)
  qed
qed

lemma header_inv_unchanged:
  assumes "header_inv st" and "csv st' = csv st" and "daHeader st' = daHeader st"
  shows "header_inv st'"
proof -
  have w: "written st' = written st"
    unfolding written_def assms(2) by (rule refl)
  show ?thesis
    unfolding header_inv_def assms(2) assms(3) w
    using assms(1) unfolding header_inv_def .
qed

lemma process_chunk_header_inv:
  assumes "header_inv st" and "process_chunk R st d = Inr st'"
  shows "header_inv st'"
proof (cases "chunk_out R (seen_pairs st) d = []")
  case True
  then show ?thesis
    using process_chunk_csv[OF assms(2)] process_chunk_header[OF assms(2)] assms(1)
    by (auto intro: header_inv_unchanged)
next
  case False
  then show ?thesis
    using process_chunk_csv[OF assms(2)] process_chunk_header[OF assms(2)] assms(1)
    by (auto intro: header_inv_to_csv)
qed

lemma strict_run_header_inv: "header_inv st \<Longrightarrow> header_inv (fst (strict_run R st ds))"
proof (induction ds arbitrary: st)
  case Nil
  then show ?case by simp
next
  case (Cons d ds)
  show ?case
  proof (cases "process_chunk R st d")
    case (Inl es)
    obtain e s where es: "es = (e, s)" by (cases es)
    have "csv s = csv st \<and> daHeader s = daHeader st"
      using process_chunk_Inl Inl es by blast
    then have "header_inv s"
      using header_inv_unchanged[OF Cons.prems] by blast
    then show ?thesis using Inl es by simp
  next
    case (Inr st1)
    have "header_inv st1" using process_chunk_header_inv[OF Cons.prems Inr] .
    then show ?thesis using Cons.IH Inr by simp
  qed
qed

lemma simple_run_header_inv: "header_inv st \<Longrightarrow> header_inv (fst (simple_run st ds))"
proof (induction ds arbitrary: st)
  case Nil
  then show ?case by simp
next
  case (Cons d ds)
  show ?case
  proof (cases "simple_chunk st d")
    case (Inl e)
    then show ?thesis using Cons.prems by simp
  next
    case (Inr st1)
    have "header_inv st1"
      using header_inv_to_csv[OF Cons.prems] simple_chunk_csv[OF Inr] by blast
    then show ?thesis using Cons.IH Inr by simp
  qed
qed

lemma header_inv_once:
  assumes "header_inv st" and "csv st \<noteq> []"
  shows "csv st = Header canonical_fields # map Row (written st) \<and> header_count st = 1"
proof -
  have c: "csv st = Header out_columns # map Row (written st)"
    using assms by (auto simp: header_inv_def split: if_splits)
  have "filter is_header (map Row ws) = []" for ws
    by (induction ws) simp_all
  then have "filter is_header (csv st) = [Header out_columns]"
    by (subst c) simp
  then show ?thesis using c by (simp add: header_count_def out_columns_canonical)
qed

text \<open>
  C7, as amended. In a run of either variant that writes anything, the file is one header line, with
  the canonical field names in the order of the specification, followed by rows only:
  the header is written once, before the rows of the first batch written, and never
  again, whatever the number of batches written or skipped.
\<close>

theorem C7_header_once:
  assumes "st = fst (strict_run R init ds) \<or> st = fst (simple_run init ds)"
    and "csv st \<noteq> []"
  shows "csv st = Header canonical_fields # map Row (written st) \<and> header_count st = 1"
proof -
  have "header_inv st"
    using assms(1) strict_run_header_inv[OF header_inv_init] simple_run_header_inv[OF header_inv_init]
    by blast
  then show ?thesis using assms(2) by (rule header_inv_once)
qed

section \<open>Records and their row labels\<close>

lemma split_compare:
  "xs = a @ x # b \<Longrightarrow> xs = a' @ x' # b' \<Longrightarrow>
   x \<in> set a' \<or> x' \<in> set a \<or> (a = a' \<and> x = x' \<and> b = b')"
  by (auto simp: append_eq_append_conv2 Cons_eq_append_conv append_eq_Cons_conv)

lemma tagged_label_inj:
  assumes "distinct (map idx (all_rows ds))"
    and "p \<in> set (tagged ds)" and "q \<in> set (tagged ds)" and "idx (snd p) = idx (snd q)"
  shows "p = q"
proof -
  have "distinct (map (idx \<circ> snd) (tagged ds))"
    using assms(1) by (simp add: map_snd_tagged[symmetric])
  then have "inj_on (idx \<circ> snd) (set (tagged ds))"
    by (simp add: distinct_map)
  then show ?thesis using assms(2-4) by (simp add: inj_on_def)
qed

lemma all_rows_tagged: "r \<in> set (all_rows ds) \<Longrightarrow> \<exists>d. (d, r) \<in> set (tagged ds)"
  by (force simp: map_snd_tagged[symmetric])

lemma written_init [simp]: "written init = []"
  by (simp add: written_def init_def)

lemma seen_init [simp]: "seen_pairs init = {}"
  by (simp add: init_def)

lemma label_strict_row [simp]: "label (strict_row R d r) = idx r"
  by (simp add: strict_row_def)

lemma label_simple_row [simp]: "label (simple_row d r) = idx r"
  by (simp add: simple_row_def)

lemma appears_origin:
  assumes "distinct (map idx (all_rows ds))" and "(d0, r0) \<in> set (tagged ds)"
    and "appears (fst (strict_run R init ds)) r0"
  shows "\<exists>pre post. tagged ds = pre @ (d0, r0) # post \<and> has_name R r0 \<and>
           (\<forall>p \<in> set pre. has_name R (snd p) \<longrightarrow> row_key R (snd p) \<noteq> row_key R r0) \<and>
           complete_enough d0 r0 \<and> \<not> all_zero (strict_row R d0 r0)"
proof -
  from assms(3) obtain w where w: "w \<in> set (written (fst (strict_run R init ds)))" "label w = idx r0"
    by (auto simp: appears_def)
  from strict_origin[OF w(1)] obtain pre d r post where
    o: "tagged ds = pre @ (d, r) # post" "w = strict_row R d r" "has_name R r"
       "\<forall>p \<in> set pre. has_name R (snd p) \<longrightarrow> row_key R (snd p) \<noteq> row_key R r"
       "complete_enough d r" "\<not> all_zero (strict_row R d r)"
    by auto
  have "(d, r) \<in> set (tagged ds)" using o(1) by simp
  moreover have "idx (snd (d, r)) = idx (snd (d0, r0))" using w(2) o(2) by simp
  ultimately have "(d, r) = (d0, r0)"
    using tagged_label_inj[OF assms(1) _ assms(2)] by blast
  then show ?thesis using o by blast
qed

section \<open>Runs without exceptions\<close>

lemma process_chunk_ok:
  assumes "''product_name'' \<in> set (columns d)" and "''brands'' \<in> set (columns d)"
    and "''serving_size'' \<in> set (columns d)" and "''serving_quantity'' \<in> set (columns d)"
  shows "\<exists>st'. process_chunk R st d = Inr st'"
  using assms unfolding process_chunk_def Let_def case_prod_beta by simp

lemma strict_run_two:
  assumes "\<forall>d \<in> {d1, d2}. ''product_name'' \<in> set (columns d) \<and> ''brands'' \<in> set (columns d) \<and>
             ''serving_size'' \<in> set (columns d) \<and> ''serving_quantity'' \<in> set (columns d)"
  shows "written (fst (strict_run R init [d1, d2])) =
           chunk_out R {} d1 @
           chunk_out R (row_key R ` set (filter (has_name R) (rows d1))) d2"
proof -
  obtain st1 where s1: "process_chunk R init d1 = Inr st1"
    using process_chunk_ok[of d1 R init] assms by auto
  obtain st2 where s2: "process_chunk R st1 d2 = Inr st2"
    using process_chunk_ok[of d2 R st1] assms by auto
  have "fst (strict_run R init [d1, d2]) = st2" using s1 s2 by simp
  moreover have "written st1 = chunk_out R {} d1"
    using process_chunk_written[OF s1] by simp
  moreover have "seen_pairs st1 = row_key R ` set (filter (has_name R) (rows d1))"
    using process_chunk_seen[OF s1] by simp
  ultimately show ?thesis using process_chunk_written[OF s2] by simp
qed

lemma in_set_tl: "x \<in> set (tl xs) \<Longrightarrow> x \<in> set xs"
  by (cases xs) simp_all

lemma simple_out_ok:
  assumes "set [''product_name'', ''serving_size'', ''serving_quantity''] \<subseteq> set (columns d)"
    and "snd ` set nutrient_map \<subseteq> set (columns d)"
    and "\<forall>r \<in> set (rows d). \<exists>x. cells r ''energy-kcal_100g'' = Flt x"
  shows "simple_out d = Inr (map (simple_row d) (rows d))"
proof -
  have k: "''energy-kcal_100g'' \<in> set (columns d)"
    using assms(2) by (auto simp: nutrient_map_def)
  have t: "list_all (\<lambda>(out, src). src \<in> set (columns d)) (tl nutrient_map)"
    unfolding list_all_iff
  proof
    fix p assume "p \<in> set (tl nutrient_map)"
    then have "p \<in> set nutrient_map" by (rule in_set_tl)
    then have "snd p \<in> set (columns d)" using assms(2) by auto
    then show "case p of (out, src) \<Rightarrow> src \<in> set (columns d)" by (simp add: case_prod_beta)
  qed
  have c: "list_all (\<lambda>r. case simple_calories (cells r ''energy-kcal_100g'') of
                            Inl e \<Rightarrow> False | Inr x \<Rightarrow> True) (rows d)"
    unfolding list_all_iff
  proof
    fix r assume "r \<in> set (rows d)"
    then obtain x where "cells r ''energy-kcal_100g'' = Flt x" using assms(3) by blast
    then show "case simple_calories (cells r ''energy-kcal_100g'') of Inl e \<Rightarrow> False | Inr x \<Rightarrow> True"
      by (cases x) (simp_all add: simple_calories_def)
  qed
  show ?thesis
    unfolding simple_out_def using assms(1) k t c by simp
qed

lemma simple_run_two:
  assumes "simple_out d1 = Inr o1" and "simple_out d2 = Inr o2"
  shows "written (fst (simple_run init [d1, d2])) = o1 @ o2"
  using assms
  by (simp add: simple_chunk_def written_def to_csv_def init_def comp_def)


section \<open>The example run\<close>

lemma full_columns_basic:
  "''product_name'' \<in> set full_columns" "''brands'' \<in> set full_columns"
  "''serving_size'' \<in> set full_columns" "''serving_quantity'' \<in> set full_columns"
  by (simp_all add: full_columns_def)

lemma full_columns_nutrients: "snd ` set nutrient_map \<subseteq> set full_columns"
  by (auto simp: full_columns_def)

lemma nutrient_src_names:
  "list_all (\<lambda>(out, src). src \<noteq> ''product_name'' \<and> src \<noteq> ''brands'' \<and>
       src \<noteq> ''serving_size'' \<and> src \<noteq> ''serving_quantity'') nutrient_map"
  by (simp add: nutrient_map_def)

lemma nutrient_src_other:
  assumes "(out, src) \<in> set nutrient_map"
  shows "src \<noteq> ''product_name''" "src \<noteq> ''brands''"
    "src \<noteq> ''serving_size''" "src \<noteq> ''serving_quantity''"
  using nutrient_src_names assms unfolding list_all_iff by auto

lemma df_get_full:
  "(out, src) \<in> set nutrient_map \<Longrightarrow>
   df_get \<lparr>columns = full_columns, rows = rs\<rparr> src r = Some (cells r src)"
  using full_columns_nutrients by (force simp: df_get_def)

lemma complete_enough_full: "complete_enough \<lparr>columns = full_columns, rows = rs\<rparr> r"
proof -
  have "completeness_col \<lparr>columns = full_columns, rows = rs\<rparr> = None"
    by (simp add: completeness_col_def full_columns_def nutrient_map_def)
  then show ?thesis by (simp add: complete_enough_def)
qed

lemma clean_numeric_missing: "clean_numeric R (Some (Flt NaN)) = Val 0"
  by (simp add: clean_numeric_def comma_to_dot_def match_here_def match_body_def is_digit_def
      fillna_def)

lemma clean_numeric_float_zero: "clean_numeric repr_ex (Some (Flt (Val 0))) = Val 0"
  by (simp add: clean_numeric_def repr_ex_def ev)

lemma clean_numeric_comma: "clean_numeric R (Some (Str ''2,5 g'')) = Val (5 / 2)"
  by (simp add: clean_numeric_def ev)


lemmas rows_ev = row_apple_def row_blank_def row_pear_def row_apple2_def row_water_def mk_row_def

lemma example_names:
  "has_name R row_apple" "\<not> has_name R row_blank" "has_name R row_pear"
  "has_name R row_apple2" "has_name R row_water"
  by (simp_all add: has_name_def rows_ev strip_def is_space_def)

lemma example_keys:
  "row_key R row_apple = (''apple'', ''brandx'')"
  "row_key R row_pear = (''pear'', ''brandy'')"
  "row_key R row_apple2 = (''apple'', ''brandx'')"
  "row_key R row_water = (''water'', ''tap'')"
  by (simp_all add: row_key_def rows_ev strip_def is_space_def lower_def lower_char_def
      upper_chars_def lower_chars_def)

lemma example_labels:
  "idx row_apple = 0" "idx row_blank = 1" "idx row_pear = 2" "idx row_apple2 = 3"
  "idx row_water = 4"
  by (simp_all add: rows_ev)

lemma all_zero_apple: "all_zero (strict_row R chunk1 row_apple)"
proof -
  have "clean_numeric R (df_get chunk1 src row_apple) = Val 0"
    if "(out, src) \<in> set nutrient_map" for out src
  proof -
    have "cells row_apple src = Flt NaN"
      using nutrient_src_other[OF that] by (simp add: rows_ev)
    then show ?thesis
      using df_get_full[OF that] by (simp add: chunk1_def clean_numeric_missing)
  qed
  then show ?thesis unfolding all_zero_strict_row by blast
qed

lemma all_zero_water: "all_zero (strict_row repr_ex chunk2 row_water)"
proof -
  have "clean_numeric repr_ex (df_get chunk2 src row_water) = Val 0"
    if "(out, src) \<in> set nutrient_map" for out src
  proof -
    have "cells row_water src = Flt (Val 0)"
      using nutrient_src_other[OF that] by (simp add: rows_ev)
    then show ?thesis
      using df_get_full[OF that] by (simp add: chunk2_def clean_numeric_float_zero)
  qed
  then show ?thesis unfolding all_zero_strict_row by blast
qed

lemma fiber_entry: "(''fiber'', ''fiber_100g'') \<in> set nutrient_map"
  by (simp add: nutrient_map_def)

lemma not_all_zero_pear: "\<not> all_zero (strict_row R chunk1 row_pear)"
proof -
  have "cells row_pear ''fiber_100g'' = Str ''2,5 g''"
    by (simp add: rows_ev)
  then have "clean_numeric R (df_get chunk1 ''fiber_100g'' row_pear) = Val (5 / 2)"
    using df_get_full[OF fiber_entry] by (simp add: chunk1_def clean_numeric_comma)
  then show ?thesis
    unfolding all_zero_strict_row using fiber_entry by force
qed

lemma chunk_out_1: "chunk_out R {} chunk1 = [strict_row R chunk1 row_pear]"
proof -
  have f: "filter (has_name R) (rows chunk1) = [row_apple, row_pear]"
    by (simp add: chunk1_def example_names)
  have u: "unique_mask R {} [row_apple, row_pear] =
             ([True, True], {(''pear'', ''brandy''), (''apple'', ''brandx'')})"
    by (simp add: example_keys)
  have c: "complete_enough chunk1 r" for r
    using complete_enough_full by (simp add: chunk1_def)
  show ?thesis
    unfolding chunk_out_def Let_def f u
    by (simp add: c all_zero_apple not_all_zero_pear)
qed

lemma chunk_out_2:
  "chunk_out repr_ex (row_key repr_ex ` set (filter (has_name repr_ex) (rows chunk1))) chunk2 = []"
proof -
  have f1: "filter (has_name repr_ex) (rows chunk1) = [row_apple, row_pear]"
    by (simp add: chunk1_def example_names)
  have f: "filter (has_name repr_ex) (rows chunk2) = [row_apple2, row_water]"
    by (simp add: chunk2_def example_names)
  have u: "fst (unique_mask repr_ex {(''apple'', ''brandx''), (''pear'', ''brandy'')}
             [row_apple2, row_water]) = [False, True]"
    by (simp add: example_keys)
  show ?thesis
    unfolding chunk_out_def Let_def f f1
    by (simp add: example_keys u all_zero_water)
qed

lemma example_strict_written:
  "written (fst (strict_run repr_ex init example_run)) = [strict_row repr_ex chunk1 row_pear]"
proof -
  have "\<forall>d \<in> {chunk1, chunk2}. ''product_name'' \<in> set (columns d) \<and> ''brands'' \<in> set (columns d) \<and>
             ''serving_size'' \<in> set (columns d) \<and> ''serving_quantity'' \<in> set (columns d)"
    by (simp add: chunk1_def chunk2_def full_columns_basic)
  then have "written (fst (strict_run repr_ex init [chunk1, chunk2])) =
      chunk_out repr_ex {} chunk1 @
      chunk_out repr_ex (row_key repr_ex ` set (filter (has_name repr_ex) (rows chunk1))) chunk2"
    by (rule strict_run_two)
  then show ?thesis
    unfolding example_run_def chunk_out_1 chunk_out_2 by simp
qed


lemma example_simple_written:
  "written (fst (simple_run init example_run)) =
     map (simple_row chunk1) [row_apple, row_blank, row_pear] @
     map (simple_row chunk2) [row_apple2, row_water]"
proof -
  have c: "set [''product_name'', ''serving_size'', ''serving_quantity''] \<subseteq> set full_columns"
    by (simp add: full_columns_basic)
  have k1: "\<forall>r \<in> set (rows chunk1). \<exists>x. cells r ''energy-kcal_100g'' = Flt x"
    by (simp add: chunk1_def rows_ev)
  have k2: "\<forall>r \<in> set (rows chunk2). \<exists>x. cells r ''energy-kcal_100g'' = Flt x"
    by (simp add: chunk2_def rows_ev)
  have o1: "simple_out chunk1 = Inr (map (simple_row chunk1) (rows chunk1))"
    using c full_columns_nutrients k1 by (intro simple_out_ok) (simp_all add: chunk1_def)
  have o2: "simple_out chunk2 = Inr (map (simple_row chunk2) (rows chunk2))"
    using c full_columns_nutrients k2 by (intro simple_out_ok) (simp_all add: chunk2_def)
  have "written (fst (simple_run init [chunk1, chunk2])) =
          map (simple_row chunk1) (rows chunk1) @ map (simple_row chunk2) (rows chunk2)"
    using o1 o2 by (rule simple_run_two)
  then show ?thesis
    unfolding example_run_def by (simp add: chunk1_def chunk2_def)
qed

lemma example_distinct: "distinct (map idx (all_rows example_run))"
  by (simp add: all_rows_def example_run_def chunk1_def chunk2_def example_labels)

lemma example_all_rows:
  "all_rows example_run = [row_apple, row_blank, row_pear, row_apple2, row_water]"
  by (simp add: all_rows_def example_run_def chunk1_def chunk2_def)

lemma example_tagged:
  "tagged example_run = [(chunk1, row_apple), (chunk1, row_blank), (chunk1, row_pear),
                         (chunk2, row_apple2), (chunk2, row_water)]"
  by (simp add: tagged_def example_run_def chunk1_def chunk2_def)


lemma example_simple_appears:
  "appears (fst (simple_run init example_run)) row_apple"
  "appears (fst (simple_run init example_run)) row_blank"
  "appears (fst (simple_run init example_run)) row_apple2"
  "appears (fst (simple_run init example_run)) row_water"
  by (simp_all add: appears_def example_simple_written example_labels)

theorem C7_header_once_witness:
  "csv (fst (strict_run repr_ex init example_run)) \<noteq> [] \<and>
   csv (fst (strict_run repr_ex init example_run)) = Header canonical_fields # map Row (written (fst (strict_run repr_ex init example_run))) \<and>
   header_count (fst (strict_run repr_ex init example_run)) = 1"
proof -
  have ne: "csv (fst (strict_run repr_ex init example_run)) \<noteq> []"
    using example_strict_written by (auto simp: written_def)
  show ?thesis
    using C7_header_once[of "fst (strict_run repr_ex init example_run)" repr_ex example_run] ne by simp
qed

section \<open>The filters of the strict variant\<close>

text \<open>
  C4, as amended. In the strict variant, an input record whose name is absent or blank
  after trimming never appears in the output: the presence filter rejects it before any
  mapping. (The simple variant has no presence filter: it writes the record under the
  name \<^verbatim>\<open>Unknown Product\<close>.) Row labels are those of \<^verbatim>\<open>read_csv\<close>, distinct through the
  run.
\<close>

theorem C4_blank_name_rejected:
  assumes "distinct (map idx (all_rows ds))" and "r \<in> set (all_rows ds)"
    and "isna (cells r ''product_name'') \<or> strip (py_str R (cells r ''product_name'')) = []"
  shows "\<not> appears (fst (strict_run R init ds)) r"
proof
  assume a: "appears (fst (strict_run R init ds)) r"
  from all_rows_tagged[OF assms(2)] obtain d where "(d, r) \<in> set (tagged ds)" ..
  from appears_origin[OF assms(1) this a] have "has_name R r" by blast
  then show False using assms(3) by (simp add: has_name_def)
qed

lemma blank_name: "strip (py_str R (cells row_blank ''product_name'')) = []"
  by (simp add: rows_ev strip_def is_space_def)

theorem C4_blank_name_rejected_witness:
  "distinct (map idx (all_rows example_run)) \<and> row_blank \<in> set (all_rows example_run) \<and>
   strip (py_str repr_ex (cells row_blank ''product_name'')) = [] \<and>
   \<not> appears (fst (strict_run repr_ex init example_run)) row_blank"
  using C4_blank_name_rejected[of example_run row_blank repr_ex] example_distinct blank_name
  by (simp add: example_all_rows)

text \<open>
  The claim as written fails in the simple variant: the record with the blank name is
  written, under the name \<^verbatim>\<open>Unknown Product\<close>.
\<close>

theorem C4_counterexample:
  "strip (py_str repr_ex (cells row_blank ''product_name'')) = [] \<and>
   appears (fst (simple_run init example_run)) row_blank \<and>
   simple_row chunk1 row_blank \<in> set (written (fst (simple_run init example_run))) \<and>
   name (simple_row chunk1 row_blank) = Str ''Unknown Product''"
proof -
  have "name (simple_row chunk1 row_blank) = Str ''Unknown Product''"
    by (simp add: simple_row_def simple_name_def rows_ev is_space_def)
  then show ?thesis
    using blank_name example_simple_appears(2) by (simp add: example_simple_written)
qed

text \<open>
  C3, as amended. In the strict variant, an input record whose every nutrient field
  normalizes to exactly \<open>0.0\<close> never appears in the output. (The simple variant has no
  all-zero filter and writes such a record.)
\<close>

theorem C3_all_zero_rejected:
  assumes "distinct (map idx (all_rows ds))" and "(d, r) \<in> set (tagged ds)"
    and "\<forall>(out, src) \<in> set nutrient_map. clean_numeric R (df_get d src r) = Val 0"
  shows "\<not> appears (fst (strict_run R init ds)) r"
proof
  assume a: "appears (fst (strict_run R init ds)) r"
  from appears_origin[OF assms(1,2) a] have "\<not> all_zero (strict_row R d r)" by blast
  then show False using assms(3) by (simp add: all_zero_strict_row)
qed

theorem C3_all_zero_rejected_witness:
  "distinct (map idx (all_rows example_run)) \<and> (chunk1, row_apple) \<in> set (tagged example_run) \<and>
   list_all (\<lambda>(out, src). clean_numeric repr_ex (df_get chunk1 src row_apple) = Val 0)
     nutrient_map \<and>
   \<not> appears (fst (strict_run repr_ex init example_run)) row_apple"
proof -
  have z: "\<forall>(out, src) \<in> set nutrient_map. clean_numeric repr_ex (df_get chunk1 src row_apple) = Val 0"
    using all_zero_apple[of repr_ex] unfolding all_zero_strict_row .
  have t: "(chunk1, row_apple) \<in> set (tagged example_run)"
    by (simp add: example_tagged)
  have l: "list_all (\<lambda>(out, src). clean_numeric repr_ex (df_get chunk1 src row_apple) = Val 0)
     nutrient_map"
    using z unfolding list_all_iff .
  show ?thesis
    using C3_all_zero_rejected[OF example_distinct t z] example_distinct t l by blast
qed

text \<open>
  The claim as written fails in the simple variant: \<open>row_water\<close>, whose every nutrient
  field is \<open>0.0\<close> there, is written.
\<close>

theorem C3_counterexample:
  "list_all (\<lambda>(field, v). v = Val 0) (nutrients (simple_row chunk2 row_water)) \<and>
   appears (fst (simple_run init example_run)) row_water \<and>
   simple_row chunk2 row_water \<in> set (written (fst (simple_run init example_run)))"
proof -
  have c: "cells row_water src = Flt (Val 0)" if "(out, src) \<in> set nutrient_map" for out src
    using nutrient_src_other[OF that] by (simp add: rows_ev)
  have k: "simple_calories (cells row_water ''energy-kcal_100g'') = Inr (Val 0)"
    by (simp add: rows_ev simple_calories_def zero_out_of_range_def)
  have "simple_numeric (cells row_water (snd p)) = Val 0" if "p \<in> set (tl nutrient_map)" for p
  proof -
    have "(fst p, snd p) \<in> set nutrient_map" using in_set_tl[OF that] by simp
    from c[OF this] show ?thesis by (simp add: simple_numeric_def zero_out_of_range_def)
  qed
  then have "list_all (\<lambda>(field, v). v = Val 0)
      (map (\<lambda>(out, src). (out, simple_numeric (cells row_water src))) (tl nutrient_map))"
    by (simp add: list_all_iff case_prod_beta)
  then have "list_all (\<lambda>(field, v). v = Val 0) (nutrients (simple_row chunk2 row_water))"
    using k by (simp add: simple_row_def)
  then show ?thesis
    using example_simple_appears(4) by (simp add: example_simple_written)
qed

text \<open>
  C9. In the strict variant the key of a record enters \<^verbatim>\<open>seen_pairs\<close> in the duplicate
  filter, before the completeness and all-zero filters. So when the first record with a
  name that carries a key is rejected by one of the later filters, no record with that
  key appears in the output.
\<close>

theorem C9_rejected_key_never_written:
  assumes "distinct (map idx (all_rows ds))"
    and "tagged ds = pre @ (d, r) # post"
    and "has_name R r"
    and "\<forall>p \<in> set pre. has_name R (snd p) \<longrightarrow> row_key R (snd p) \<noteq> row_key R r"
    and "\<not> complete_enough d r \<or> all_zero (strict_row R d r)"
    and "r' \<in> set (all_rows ds)" and "row_key R r' = row_key R r"
  shows "\<not> appears (fst (strict_run R init ds)) r'"
proof
  assume a: "appears (fst (strict_run R init ds)) r'"
  from all_rows_tagged[OF assms(6)] obtain d' where m: "(d', r') \<in> set (tagged ds)" ..
  from appears_origin[OF assms(1) m a] obtain pre' post' where
    o: "tagged ds = pre' @ (d', r') # post'" "has_name R r'"
       "\<forall>p \<in> set pre'. has_name R (snd p) \<longrightarrow> row_key R (snd p) \<noteq> row_key R r'"
       "complete_enough d' r'" "\<not> all_zero (strict_row R d' r')"
    by blast
  from split_compare[OF assms(2) o(1)] consider
    "(d, r) \<in> set pre'" | "(d', r') \<in> set pre" | "(d, r) = (d', r')"
    by blast
  then show False
  proof cases
    case 1
    then show False using o(3) assms(3,7) by fastforce
  next
    case 2
    then show False using assms(4) o(2) assms(7) by fastforce
  next
    case 3
    then show False using assms(5) o(4,5) by simp
  qed
qed

theorem C9_rejected_key_never_written_witness:
  "distinct (map idx (all_rows example_run)) \<and>
   tagged example_run = [] @ (chunk1, row_apple) #
     [(chunk1, row_blank), (chunk1, row_pear), (chunk2, row_apple2), (chunk2, row_water)] \<and>
   has_name repr_ex row_apple \<and> all_zero (strict_row repr_ex chunk1 row_apple) \<and>
   row_apple2 \<in> set (all_rows example_run) \<and>
   row_key repr_ex row_apple2 = row_key repr_ex row_apple \<and>
   \<not> appears (fst (strict_run repr_ex init example_run)) row_apple2"
proof -
  have t: "tagged example_run = [] @ (chunk1, row_apple) #
     [(chunk1, row_blank), (chunk1, row_pear), (chunk2, row_apple2), (chunk2, row_water)]"
    by (simp add: example_tagged)
  have f: "\<forall>p \<in> set []. has_name repr_ex (snd p) \<longrightarrow>
             row_key repr_ex (snd p) \<noteq> row_key repr_ex row_apple"
    by simp
  have r: "\<not> complete_enough chunk1 row_apple \<or> all_zero (strict_row repr_ex chunk1 row_apple)"
    using all_zero_apple by simp
  have m: "row_apple2 \<in> set (all_rows example_run)"
    by (simp add: example_all_rows)
  have k: "row_key repr_ex row_apple2 = row_key repr_ex row_apple"
    by (simp add: example_keys)
  show ?thesis
    using C9_rejected_key_never_written[OF example_distinct t example_names(1) f r m k]
      example_distinct t example_names(1) all_zero_apple m k
    by blast
qed




section \<open>The mapped fields of a written row\<close>

lemma strict_written_origin:
  "w \<in> set (written (fst (strict_run R init ds))) \<Longrightarrow>
   \<exists>d r. (d, r) \<in> set (tagged ds) \<and> w = strict_row R d r"
proof -
  assume "w \<in> set (written (fst (strict_run R init ds)))"
  from strict_origin[OF this] obtain pre d r post where
    "tagged ds = pre @ (d, r) # post" "w = strict_row R d r"
    by auto
  then have "(d, r) \<in> set (tagged ds) \<and> w = strict_row R d r" by simp
  then show ?thesis by blast
qed

lemma simple_written_origin:
  "w \<in> set (written (fst (simple_run init ds))) \<Longrightarrow>
   \<exists>d r. (d, r) \<in> set (tagged ds) \<and> w = simple_row d r"
  using simple_origin[of w init ds] by simp

lemma servings_strict_row [simp]:
  "servings (strict_row R d r) = servings_val (cells r ''serving_quantity'')"
  by (simp add: strict_row_def)

lemma servings_simple_row [simp]:
  "servings (simple_row d r) = servings_val (cells r ''serving_quantity'')"
  by (simp add: simple_row_def)

text \<open>
  C5. Every record that reaches the output, in either variant, has its servings field in
  \<open>(0, 99]\<close>: it is \<open>1.0\<close> when the parsed serving quantity is missing (NaN), \<open>\<le> 0\<close> or
  \<open>> 99\<close>, and the parsed value otherwise.
\<close>

theorem C5_servings_in_range:
  assumes "w \<in> set (written (fst (strict_run R init ds))) \<or>
           w \<in> set (written (fst (simple_run init ds)))"
  shows "\<exists>d r x v. (d, r) \<in> set (tagged ds) \<and> label w = idx r \<and>
           x = to_numeric (cells r ''serving_quantity'') \<and>
           servings w = (if x = NaN \<or> f_le x 0 \<or> f_gt x 99 then Val 1 else x) \<and>
           servings w = Val v \<and> 0 < v \<and> v \<le> 99"
proof -
  from assms obtain d r where o: "(d, r) \<in> set (tagged ds)" "label w = idx r"
      "servings w = servings_val (cells r ''serving_quantity'')"
    using strict_written_origin[of w R ds] simple_written_origin[of w ds] by auto
  obtain v where v: "servings_val (cells r ''serving_quantity'') = Val v" "0 < v" "v \<le> 99"
    using servings_val_range by blast
  have e: "servings w = (if to_numeric (cells r ''serving_quantity'') = NaN \<or>
                         f_le (to_numeric (cells r ''serving_quantity'')) 0 \<or>
                         f_gt (to_numeric (cells r ''serving_quantity'')) 99
                      then Val 1 else to_numeric (cells r ''serving_quantity''))"
    using o(3) by (simp add: servings_val_def Let_def)
  have sv: "servings w = Val v" using o(3) v(1) by simp
  show ?thesis
    by (rule exI[of _ d], rule exI[of _ r],
        rule exI[of _ "to_numeric (cells r ''serving_quantity'')"], rule exI[of _ v])
       (use o(1,2) e sv v(2,3) in blast)
qed

lemma pear_written:
  "strict_row repr_ex chunk1 row_pear \<in> set (written (fst (strict_run repr_ex init example_run)))"
  by (simp add: example_strict_written)

lemma pear_servings: "servings (strict_row repr_ex chunk1 row_pear) = Val 1"
  by (simp add: servings_val_def rows_ev ev)

theorem C5_servings_in_range_witness:
  "strict_row repr_ex chunk1 row_pear \<in> set (written (fst (strict_run repr_ex init example_run))) \<and>
   servings (strict_row repr_ex chunk1 row_pear) = Val 1 \<and>
   (\<exists>d r x v. (d, r) \<in> set (tagged example_run) \<and>
       label (strict_row repr_ex chunk1 row_pear) = idx r \<and>
       x = to_numeric (cells r ''serving_quantity'') \<and>
       servings (strict_row repr_ex chunk1 row_pear) =
         (if x = NaN \<or> f_le x 0 \<or> f_gt x 99 then Val 1 else x) \<and>
       servings (strict_row repr_ex chunk1 row_pear) = Val v \<and> 0 < v \<and> v \<le> 99)"
  using C5_servings_in_range[of "strict_row repr_ex chunk1 row_pear" repr_ex example_run]
    pear_written pear_servings
  by blast

lemma strip_Nil: "strip [] = []"
  by (simp add: strip_def)

lemma serving_size_strict_row:
  "serving_size (strict_row R d r) =
     Str (remove_quotes (if isna (cells r ''serving_size'') \<or>
                            strip (py_str R (cells r ''serving_size'')) = []
                         then ''100g?'' else py_str R (cells r ''serving_size'')))"
  by (simp add: strict_row_def fix_serving_size_def fill_str_def strip_Nil)

text \<open>
  C6, as amended. For every output record of the strict variant the serving_size field is
  text: the raw serving_size cell with its single and double quote characters removed if
  the cell is non-blank after trimming, and the sentinel \<^verbatim>\<open>100g?\<close> when the cell is absent
  or blank. In the simple variant the field is a number: the numeric normalization of
  the cell.
\<close>

theorem C6_serving_size:
  "(w \<in> set (written (fst (strict_run R init ds))) \<longrightarrow>
      (\<exists>d r. (d, r) \<in> set (tagged ds) \<and> label w = idx r \<and>
         serving_size w =
           Str (remove_quotes (if isna (cells r ''serving_size'') \<or>
                                  strip (py_str R (cells r ''serving_size'')) = []
                               then ''100g?'' else py_str R (cells r ''serving_size''))))) \<and>
   (w \<in> set (written (fst (simple_run init ds))) \<longrightarrow>
      (\<exists>d r. (d, r) \<in> set (tagged ds) \<and> label w = idx r \<and>
         serving_size w = Flt (simple_numeric (cells r ''serving_size''))))"
proof (intro conjI impI)
  assume "w \<in> set (written (fst (strict_run R init ds)))"
  from strict_written_origin[OF this] obtain d r where
    o: "(d, r) \<in> set (tagged ds)" "w = strict_row R d r" by blast
  then have "label w = idx r" by simp
  then show "\<exists>d r. (d, r) \<in> set (tagged ds) \<and> label w = idx r \<and>
         serving_size w =
           Str (remove_quotes (if isna (cells r ''serving_size'') \<or>
                                  strip (py_str R (cells r ''serving_size'')) = []
                               then ''100g?'' else py_str R (cells r ''serving_size'')))"
    using o serving_size_strict_row[of R d r] by blast
next
  assume "w \<in> set (written (fst (simple_run init ds)))"
  from simple_written_origin[OF this] obtain d r where
    o: "(d, r) \<in> set (tagged ds)" "w = simple_row d r" by blast
  then have "label w = idx r \<and> serving_size w = Flt (simple_numeric (cells r ''serving_size''))"
    by (simp add: simple_row_def)
  then show "\<exists>d r. (d, r) \<in> set (tagged ds) \<and> label w = idx r \<and>
         serving_size w = Flt (simple_numeric (cells r ''serving_size''))"
    using o(1) by blast
qed


lemma pear_serving_size: "serving_size (strict_row repr_ex chunk1 row_pear) = Str ''1 cup''"
  by (simp add: serving_size_strict_row rows_ev strip_def is_space_def remove_quotes_def)

lemma pear_simple_written:
  "simple_row chunk1 row_pear \<in> set (written (fst (simple_run init example_run)))"
  by (simp add: example_simple_written)

lemma pear_simple_serving_size: "serving_size (simple_row chunk1 row_pear) = Flt NaN"
  by (simp add: simple_row_def simple_numeric_def zero_out_of_range_def rows_ev ev)

theorem C6_serving_size_witness:
  "strict_row repr_ex chunk1 row_pear \<in> set (written (fst (strict_run repr_ex init example_run))) \<and>
   (\<exists>d r. (d, r) \<in> set (tagged example_run) \<and>
      label (strict_row repr_ex chunk1 row_pear) = idx r \<and>
      serving_size (strict_row repr_ex chunk1 row_pear) =
        Str (remove_quotes (if isna (cells r ''serving_size'') \<or>
                               strip (py_str repr_ex (cells r ''serving_size'')) = []
                            then ''100g?'' else py_str repr_ex (cells r ''serving_size'')))) \<and>
   simple_row chunk1 row_pear \<in> set (written (fst (simple_run init example_run))) \<and>
   (\<exists>d r. (d, r) \<in> set (tagged example_run) \<and>
      label (simple_row chunk1 row_pear) = idx r \<and>
      serving_size (simple_row chunk1 row_pear) = Flt (simple_numeric (cells r ''serving_size'')))"
  using C6_serving_size[of "strict_row repr_ex chunk1 row_pear" repr_ex example_run]
    C6_serving_size[of "simple_row chunk1 row_pear" repr_ex example_run]
    pear_written pear_simple_written
  by blast

text \<open>
  The claim as written fails on \<open>row_pear\<close>, whose raw serving_size cell is the text
  \<^verbatim>\<open>1 "cup"\<close>: the simple variant writes the number NaN, and the strict variant writes
  the text without its quotes.
\<close>

theorem C6_counterexample:
  "cells row_pear ''serving_size'' = Str (''1 '' @ [CHR 0x22] @ ''cup'' @ [CHR 0x22]) \<and>
   simple_row chunk1 row_pear \<in> set (written (fst (simple_run init example_run))) \<and>
   serving_size (simple_row chunk1 row_pear) = Flt NaN \<and>
   strict_row repr_ex chunk1 row_pear \<in> set (written (fst (strict_run repr_ex init example_run))) \<and>
   serving_size (strict_row repr_ex chunk1 row_pear) = Str ''1 cup''"
  using pear_simple_written pear_simple_serving_size pear_written pear_serving_size
  by (simp add: rows_ev)

section \<open>Absent columns\<close>

lemma strict_run_one:
  assumes "''product_name'' \<in> set (columns d)" and "''brands'' \<in> set (columns d)"
    and "''serving_size'' \<in> set (columns d)" and "''serving_quantity'' \<in> set (columns d)"
  shows "written (fst (strict_run R init [d])) = chunk_out R {} d"
proof -
  obtain st1 where s1: "process_chunk R init d = Inr st1"
    using process_chunk_ok[OF assms] by blast
  have "written st1 = chunk_out R {} d"
    using process_chunk_written[OF s1] by simp
  then show ?thesis using s1 by simp
qed

lemma no_brands: "''brands'' \<notin> set (columns chunk_no_brands)"
  by (simp add: chunk_no_brands_def nutrient_map_def)

lemma process_no_brands: "process_chunk R init chunk_no_brands = Inl (TypeError, init)"
proof -
  have f: "filter (has_name R) (rows chunk_no_brands) = [row_pear]"
    by (simp add: chunk_no_brands_def example_names)
  have p: "''product_name'' \<in> set (columns chunk_no_brands)"
    by (simp add: chunk_no_brands_def)
  show ?thesis
    unfolding process_chunk_def f Let_def using p no_brands by simp
qed

lemma no_nutrient_column:
  "(out, src) \<in> set nutrient_map \<Longrightarrow> df_get chunk_no_nutrients src r = None"
  using nutrient_src_other[of out src] by (simp add: df_get_def chunk_no_nutrients_def)

lemma calories_entry: "(''calories'', ''energy-kcal_100g'') \<in> set nutrient_map"
  by (simp add: nutrient_map_def)

lemma not_all_zero_no_nutrients: "\<not> all_zero (strict_row R chunk_no_nutrients r)"
proof -
  have "clean_numeric R (df_get chunk_no_nutrients ''energy-kcal_100g'' r) = NaN"
    using no_nutrient_column[OF calories_entry] by (simp add: clean_numeric_def)
  then show ?thesis
    unfolding all_zero_strict_row using calories_entry by force
qed

lemma written_no_nutrients:
  "written (fst (strict_run R init [chunk_no_nutrients])) =
     [strict_row R chunk_no_nutrients row_apple]"
proof -
  have f: "filter (has_name R) (rows chunk_no_nutrients) = [row_apple]"
    by (simp add: chunk_no_nutrients_def example_names)
  have "completeness_col chunk_no_nutrients = None"
    by (simp add: completeness_col_def chunk_no_nutrients_def)
  then have c: "complete_enough chunk_no_nutrients r" for r
    by (simp add: complete_enough_def)
  have "chunk_out R {} chunk_no_nutrients = [strict_row R chunk_no_nutrients row_apple]"
    unfolding chunk_out_def Let_def f
    by (simp add: c not_all_zero_no_nutrients)
  moreover have "written (fst (strict_run R init [chunk_no_nutrients])) =
      chunk_out R {} chunk_no_nutrients"
    by (rule strict_run_one) (simp_all add: chunk_no_nutrients_def)
  ultimately show ?thesis by simp
qed

lemma fiber_no_nutrients:
  "map_of (nutrients (strict_row R chunk_no_nutrients row_apple)) ''fiber'' = Some NaN"
proof -
  have "map_of (nutrients (strict_row R chunk_no_nutrients row_apple)) ''fiber'' =
        Some (clean_numeric R (df_get chunk_no_nutrients ''fiber_100g'' row_apple))"
    unfolding strict_row_def
    using map_of_mapped[OF distinct_nutrient_names fiber_entry,
        where f = "\<lambda>src. clean_numeric R (df_get chunk_no_nutrients src row_apple)"]
    by simp
  then show ?thesis
    using no_nutrient_column[OF fiber_entry] by (simp add: clean_numeric_def)
qed

lemma simple_no_nutrients: "simple_out chunk_no_nutrients = Inl AttributeError"
  by (simp add: simple_out_def chunk_no_nutrients_def)

text \<open>
  C8. The code at three inputs that lack a consumed column. Without the \<^verbatim>\<open>brands\<close>
  column the strict variant raises TypeError at the \<^verbatim>\<open>zip\<close> of line 44. Without the
  nutrient columns the strict variant raises nothing but writes NaN, not the default
  \<open>0.0\<close>, in the nutrient fields (and so keeps a record with no nutrient data), and the
  simple variant raises AttributeError.
\<close>

theorem C8_absent_column:
  "process_chunk R init chunk_no_brands = Inl (TypeError, init) \<and>
   snd (strict_run R init [chunk_no_brands]) = Some TypeError \<and>
   written (fst (strict_run R init [chunk_no_nutrients])) =
     [strict_row R chunk_no_nutrients row_apple] \<and>
   map_of (nutrients (strict_row R chunk_no_nutrients row_apple)) ''fiber'' = Some NaN \<and>
   snd (simple_run init [chunk_no_nutrients]) = Some AttributeError"
  using process_no_brands[of R] written_no_nutrients[of R] fiber_no_nutrients[of R]
    simple_no_nutrients
  by (simp add: simple_chunk_def)

section \<open>A run that writes nothing\<close>

lemma chunk_out_apple: "chunk_out R {} chunk_apple = []"
proof -
  have f: "filter (has_name R) (rows chunk_apple) = [row_apple]"
    by (simp add: chunk_apple_def example_names)
  have "strict_row R chunk_apple row_apple = strict_row R chunk1 row_apple"
    by (simp add: strict_row_def df_get_def chunk_apple_def chunk1_def)
  then have z: "all_zero (strict_row R chunk_apple row_apple)"
    using all_zero_apple by simp
  show ?thesis
    unfolding chunk_out_def Let_def f by (simp add: z)
qed

lemma csv_apple_run: "csv (fst (strict_run R init [chunk_apple])) = []"
proof -
  obtain st1 where s1: "process_chunk R init chunk_apple = Inr st1"
    using process_chunk_ok[of chunk_apple R init]
    by (auto simp: chunk_apple_def full_columns_basic)
  have "csv st1 = csv init"
    using process_chunk_csv[OF s1] by (simp add: chunk_out_apple)
  then show ?thesis using s1 by (simp add: init_def)
qed

text \<open>
  The claim as written fails when no batch survives: the only record of this run is
  dropped by the all-zero filter, the loop never reaches \<^verbatim>\<open>to_csv\<close>, and the header is
  written zero times.
\<close>

theorem C7_counterexample:
  "rows chunk_apple = [row_apple] \<and>
   csv (fst (strict_run repr_ex init [chunk_apple])) = [] \<and>
   header_count (fst (strict_run repr_ex init [chunk_apple])) = 0"
  using csv_apple_run[of repr_ex] by (simp add: header_count_def chunk_apple_def)

end
